theory Spec2Isabelle
  imports Complex_Main
begin

section \<open>Data model\<close>

text \<open>
  The scheduling core lives in two modules: the enhanced generator, detector and
  suggester of \<^verbatim>\<open>client/src/lib/enhanced-scheduling-algorithm.ts\<close> (the one the
  application imports) and the earlier module whose text follows the date helpers in
  \<^verbatim>\<open>client/src/lib/format-date.ts\<close>. Both are embedded; names ending in
  \<open>_enh\<close> belong to the first and names ending in \<open>_base\<close> to the second.

  Calendar dates are the strings \<^verbatim>\<open>YYYY-MM-DD\<close> in the source. They are
  embedded as day numbers (days since 1970-01-01, a Thursday): string equality becomes
  equality of day numbers and the default string sort becomes the numeric order.
  Malformed date strings are outside the embedding.
\<close>

type_synonym date = int

section \<open>Date objects and the local time zone\<close>

text \<open>
  The source steps from one date string to another through \<^verbatim>\<open>Date\<close> objects:
  \<^verbatim>\<open>new Date("YYYY-MM-DD")\<close> is midnight UTC of that day, \<^verbatim>\<open>getDate\<close>,
  \<^verbatim>\<open>setDate\<close> and \<^verbatim>\<open>getDay\<close> read and write the fields of the local time, and
  \<^verbatim>\<open>toISOString().split('T')[0]\<close> prints the UTC day. The time value of a
  \<^verbatim>\<open>Date\<close> object is a number of milliseconds since the epoch.

  The local time zone is the environment of every function of the two modules. A zone
  is a standard offset from UTC in milliseconds and a list of daylight-saving periods
  \<open>[from, to)\<close>, given as UTC instants, during which local clocks are one hour ahead
  of standard time. \<open>localTime\<close> and \<open>utcTime\<close> are \<^verbatim>\<open>LocalTime\<close> and \<^verbatim>\<open>UTC\<close>
  of ECMAScript: a local time that the clocks skip or show twice at a change is read
  with the offset in force before the change.
\<close>

type_synonym instant = int

record Zone =
  stdOffset :: int
  dstPeriods :: "(instant \<times> instant) list"

definition msPerHour :: int where
  "msPerHour = 3600000"

definition msPerDay :: int where
  "msPerDay = 86400000"

definition inDst :: "Zone \<Rightarrow> instant \<Rightarrow> bool" where
  "inDst tz t = list_ex (\<lambda>p. fst p \<le> t \<and> t < snd p) (dstPeriods tz)"

definition localTime :: "Zone \<Rightarrow> instant \<Rightarrow> int" where
  "localTime tz t = t + stdOffset tz + (if inDst tz t then msPerHour else 0)"

definition utcTime :: "Zone \<Rightarrow> int \<Rightarrow> instant" where
  "utcTime tz l =
     (if inDst tz (l - stdOffset tz - msPerHour) then l - stdOffset tz - msPerHour
      else l - stdOffset tz)"

text \<open>\<^verbatim>\<open>new Date("YYYY-MM-DD")\<close>\<close>

definition newDate :: "date \<Rightarrow> instant" where
  "newDate d = d * msPerDay"

text \<open>\<^verbatim>\<open>new Date(year, month, day)\<close>: midnight of that day in local time.\<close>

definition newLocalDate :: "Zone \<Rightarrow> date \<Rightarrow> instant" where
  "newLocalDate tz d = utcTime tz (d * msPerDay)"

text \<open>\<^verbatim>\<open>x.toISOString().split('T')[0]\<close>\<close>

definition toISODate :: "instant \<Rightarrow> date" where
  "toISODate t = t div msPerDay"

text \<open>
  \<^verbatim>\<open>x.setDate(x.getDate() + n)\<close>: the local time moves by \<open>n\<close> whole days, keeping its
  time of day, and is read back as an instant.
\<close>

definition setDateBy :: "Zone \<Rightarrow> int \<Rightarrow> instant \<Rightarrow> instant" where
  "setDateBy tz n t = utcTime tz (localTime tz t + n * msPerDay)"

text \<open>\<^verbatim>\<open>x.getDay()\<close>: the day of the week of the local time, 0 for Sunday.\<close>

definition getDay :: "Zone \<Rightarrow> instant \<Rightarrow> int" where
  "getDay tz t = (localTime tz t div msPerDay + 4) mod 7"

text \<open>
  The three lines \<^verbatim>\<open>const x = new Date(s); x.setDate(x.getDate() + n);
  x.toISOString().split('T')[0]\<close>, which the source writes out wherever it needs the
  previous or the next day of a date string.
\<close>

definition addDays :: "Zone \<Rightarrow> int \<Rightarrow> date \<Rightarrow> date" where
  "addDays tz n d = toISODate (setDateBy tz n (newDate d))"

text \<open>
  Two zones: UTC, and the zone of New York with its daylight-saving period of 2024 (from
  2024-03-10 07:00 UTC to 2024-11-03 06:00 UTC). 2024-03-10 is day 19792 and 2024-11-03
  is day 20030; both are Sundays.
\<close>

definition utc :: Zone where
  "utc = \<lparr>stdOffset = 0, dstPeriods = []\<rparr>"

definition newYork :: Zone where
  "newYork = \<lparr>stdOffset = - 18000000, dstPeriods = [(1710054000000, 1730613600000)]\<rparr>"

record StaffWithUser =
  sid :: int
  specialization :: "string option"
  firstName :: string
  lastName :: string

record ShiftType =
  stid :: int
  stname :: string

record DutyType =
  dtid :: int
  dtname :: string

record Availability =
  avStaffId :: int
  avDate :: date
  isAvailable :: bool

text \<open>\<^verbatim>\<open>shiftTypeId\<close> of a schedule entry is a number, \<^verbatim>\<open>null\<close> or
  \<^verbatim>\<open>undefined\<close>; the source tells the three apart (\<^verbatim>\<open>!== null\<close>, truthiness).\<close>

datatype shiftref = Undefined | Null | ShiftId int

record Schedule =
  schedId :: "int option"
  staffId :: int
  sdate :: date
  shiftTypeId :: shiftref
  dutyTypeId :: int
  sunit :: "string option"

datatype ConflictType =
  CONSECUTIVE_SHIFTS | EXCEEDS_WEEKLY_HOURS | REST_PERIOD_VIOLATION
  | UNAVAILABLE_STAFF | EXISTING_ASSIGNMENT | SPECIALIZATION_MISMATCH

datatype Severity = Warning | Error

text \<open>The message templates of the source, with the values they interpolate.\<close>

datatype message =
  AlreadyHasAssignmentOn date
  | ExceedsMaxConsecutive
  | ExceedsMaxWeekly
  | InsufficientRestDayNight
  | InsufficientRestNightDay
  | MarkedUnavailable
  | AlreadyAssignedOnDate
  | SpecializationDiffers string string
  | NConsecutiveExceeds nat

record ScheduleConflict =
  ctype :: ConflictType
  cstaffId :: int
  cdate :: date
  cmessage :: message
  severity :: Severity
  staffName :: string

record ScheduleInput =
  staff :: "StaffWithUser list"
  shiftTypes :: "ShiftType list"
  dutyTypes :: "DutyType list"
  availabilities :: "Availability list"
  startDate :: date
  endDate :: date
  unitTag :: string
  existingSchedules :: "Schedule list"

record StaffLoad =
  consecutiveShifts :: nat
  totalShifts :: nat
  nightShifts :: nat
  lastShiftDate :: "date option"
  lastShiftType :: "int option"
  restDays :: nat
  loadSpecialization :: "string option"

record DutyPattern =
  preDuty :: nat
  duty :: nat
  postDuty :: nat
  dayShift :: nat
  eveningShift :: nat
  nightShift :: nat

text \<open>The identifiers looked up by name in the catalogs at the start of a run.\<close>

record Consts =
  preDutyId :: int
  dutyId :: int
  postDutyId :: int
  dayShiftId :: "int option"
  eveningShiftId :: "int option"
  nightShiftId :: "int option"

text \<open>
  The mutable locals of \<^verbatim>\<open>generateSchedule\<close>. \<^verbatim>\<open>staffLoads\<close> and
  \<^verbatim>\<open>staffDutyPatterns\<close> are objects keyed by staff id that receive a key for every
  roster member before anything reads them and are read at roster ids only; they are
  embedded as total functions, and the one test for a missing key
  (\<^verbatim>\<open>!staffLoads[schedule.staffId]\<close>) as membership in the roster's ids.
  \<^verbatim>\<open>weeklySchedules[weekKey][id] || 0\<close> is a total function with value 0 where
  nothing was stored. \<^verbatim>\<open>assignedShifts\<close> is the per-date set of keys
  \<^verbatim>\<open>`${id}-${date}`\<close>, emptied when a date starts.
\<close>

record GenState =
  schedules :: "Schedule list"
  conflicts :: "ScheduleConflict list"
  staffLoads :: "int \<Rightarrow> StaffLoad"
  staffDutyPatterns :: "int \<Rightarrow> DutyPattern"
  weeklySchedules :: "date \<Rightarrow> int \<Rightarrow> nat"
  assignedShifts :: "(int \<times> date) set"

section \<open>Helpers shared by both generators\<close>

definition MAX_CONSECUTIVE_SHIFTS :: nat where
  "MAX_CONSECUTIVE_SHIFTS = 5"

definition MAX_SHIFTS_PER_WEEK :: nat where
  "MAX_SHIFTS_PER_WEEK = 5"

text \<open>
  \<^verbatim>\<open>getWeekKey\<close>: the UTC day of the instant reached from midnight UTC of the date
  by going back, in local time, to the local Sunday.
\<close>

definition getWeekKey :: "Zone \<Rightarrow> date \<Rightarrow> date" where
  "getWeekKey tz dateStr =
     (let date = newDate dateStr;
          firstDayOfWeek = setDateBy tz (- getDay tz date) date
      in toISODate firstDayOfWeek)"

definition getPreviousDay :: "Zone \<Rightarrow> date \<Rightarrow> date" where
  "getPreviousDay tz dateString = addDays tz (- 1) dateString"

definition fullName :: "StaffWithUser \<Rightarrow> string" where
  "fullName s = firstName s @ '' '' @ lastName s"

text \<open>\<^verbatim>\<open>dutyTypes.find(dt => dt.name === n)?.id || 0\<close>\<close>

definition findDutyId :: "DutyType list \<Rightarrow> string \<Rightarrow> int" where
  "findDutyId dts n = (case find (\<lambda>dt. dtname dt = n) dts of None \<Rightarrow> 0 | Some dt \<Rightarrow> dtid dt)"

text \<open>\<^verbatim>\<open>shiftTypes.find(p)?.id\<close>\<close>

definition findShiftId :: "ShiftType list \<Rightarrow> (string \<Rightarrow> bool) \<Rightarrow> int option" where
  "findShiftId sts p = map_option stid (find (\<lambda>st. p (stname st)) sts)"

text \<open>\<^verbatim>\<open>x || null\<close> for an optional number: 0 and \<^verbatim>\<open>undefined\<close> give \<^verbatim>\<open>null\<close>.\<close>

definition orNull :: "int option \<Rightarrow> int option" where
  "orNull x = (case x of None \<Rightarrow> None | Some n \<Rightarrow> if n = 0 then None else Some n)"

definition toRef :: "int option \<Rightarrow> shiftref" where
  "toRef x = (case x of None \<Rightarrow> Undefined | Some n \<Rightarrow> ShiftId n)"

text \<open>The number a truthy \<^verbatim>\<open>shiftTypeId\<close> holds.\<close>

fun truthyShift :: "shiftref \<Rightarrow> int option" where
  "truthyShift (ShiftId n) = (if n = 0 then None else Some n)"
| "truthyShift Null = None"
| "truthyShift Undefined = None"

text \<open>\<^verbatim>\<open>Math.ceil(n / k)\<close> for an array length \<open>n\<close>.\<close>

definition ceilDiv :: "nat \<Rightarrow> nat \<Rightarrow> nat" where
  "ceilDiv n k = (n + k - 1) div k"

text \<open>
  \<^verbatim>\<open>Array.prototype.sort(cmp)\<close> is stable; for a consistent comparator every stable
  sort returns the same array, here computed by insertion from the right.
\<close>

fun insertBy :: "('a \<Rightarrow> 'a \<Rightarrow> int) \<Rightarrow> 'a \<Rightarrow> 'a list \<Rightarrow> 'a list" where
  "insertBy cmp x [] = [x]"
| "insertBy cmp x (y # ys) = (if cmp x y \<le> 0 then x # y # ys else y # insertBy cmp x ys)"

definition sortBy :: "('a \<Rightarrow> 'a \<Rightarrow> int) \<Rightarrow> 'a list \<Rightarrow> 'a list" where
  "sortBy cmp xs = foldr (insertBy cmp) xs []"

definition initLoads :: "StaffWithUser list \<Rightarrow> int \<Rightarrow> StaffLoad" where
  "initLoads stf =
     fold (\<lambda>s f. f(sid s := \<lparr>consecutiveShifts = 0, totalShifts = 0, nightShifts = 0,
                            lastShiftDate = None, lastShiftType = None, restDays = 0,
                            loadSpecialization = specialization s\<rparr>))
       stf
       (\<lambda>_. \<lparr>consecutiveShifts = 0, totalShifts = 0, nightShifts = 0,
             lastShiftDate = None, lastShiftType = None, restDays = 0,
             loadSpecialization = None\<rparr>)"

definition initPattern :: DutyPattern where
  "initPattern = \<lparr>preDuty = 0, duty = 0, postDuty = 0, dayShift = 0, eveningShift = 0, nightShift = 0\<rparr>"

definition initState :: "StaffWithUser list \<Rightarrow> GenState" where
  "initState stf =
     \<lparr>schedules = [], conflicts = [], staffLoads = initLoads stf,
      staffDutyPatterns = (\<lambda>_. initPattern), weeklySchedules = (\<lambda>_ _. 0),
      assignedShifts = {}\<rparr>"

text \<open>The body of the loop over \<^verbatim>\<open>existingSchedules\<close> that seeds the counters.\<close>

definition seedExisting :: "Zone \<Rightarrow> StaffWithUser list \<Rightarrow> Consts \<Rightarrow> Schedule \<Rightarrow> GenState \<Rightarrow> GenState" where
  "seedExisting tz stf k schedule st =
     (if staffId schedule \<notin> set (map sid stf) then st
      else
        let i = staffId schedule;
            l0 = staffLoads st i;
            p0 = staffDutyPatterns st i;
            l1 = (case truthyShift (shiftTypeId schedule) of
                    None \<Rightarrow> l0
                  | Some t \<Rightarrow>
                      l0\<lparr>totalShifts := totalShifts l0 + 1,
                         nightShifts := (if Some t = nightShiftId k then nightShifts l0 + 1 else nightShifts l0),
                         lastShiftDate := Some (sdate schedule),
                         lastShiftType := Some t\<rparr>);
            p1 = (case truthyShift (shiftTypeId schedule) of
                    None \<Rightarrow> p0
                  | Some t \<Rightarrow>
                      (let p = (if Some t = nightShiftId k then p0\<lparr>nightShift := nightShift p0 + 1\<rparr> else p0)
                       in if Some t = dayShiftId k then p\<lparr>dayShift := dayShift p + 1\<rparr>
                          else if Some t = eveningShiftId k then p\<lparr>eveningShift := eveningShift p + 1\<rparr>
                          else p));
            p2 = (if dutyTypeId schedule = dutyId k then p1\<lparr>duty := duty p1 + 1\<rparr>
                  else if dutyTypeId schedule = preDutyId k then p1\<lparr>preDuty := preDuty p1 + 1\<rparr>
                  else if dutyTypeId schedule = postDutyId k then p1\<lparr>postDuty := postDuty p1 + 1\<rparr>
                  else p1);
            weekKey = getWeekKey tz (sdate schedule);
            w = weeklySchedules st
        in st\<lparr>staffLoads := (staffLoads st)(i := l1),
              staffDutyPatterns := (staffDutyPatterns st)(i := p2),
              weeklySchedules := w(weekKey := (w weekKey)(i := w weekKey i + 1))\<rparr>)"

text \<open>The state after the loop over \<^verbatim>\<open>existingSchedules\<close>, before the first date.\<close>

definition seedState :: "Zone \<Rightarrow> ScheduleInput \<Rightarrow> Consts \<Rightarrow> GenState" where
  "seedState tz inp k =
     fold (seedExisting tz (staff inp) k) (existingSchedules inp) (initState (staff inp))"

definition unavailableIds :: "Availability list \<Rightarrow> date \<Rightarrow> int list" where
  "unavailableIds avs date = map avStaffId (filter (\<lambda>a. avDate a = date \<and> \<not> isAvailable a) avs)"

text \<open>The comparator of the first sort of a date (literally the same in both modules).\<close>

definition fairnessCompare ::
  "string \<Rightarrow> int list \<Rightarrow> date \<Rightarrow> GenState \<Rightarrow> StaffWithUser \<Rightarrow> StaffWithUser \<Rightarrow> int" where
  "fairnessCompare un unavailableStaffIds weekKey st a b =
     (let aLoad = staffLoads st (sid a);
          bLoad = staffLoads st (sid b);
          aPattern = staffDutyPatterns st (sid a);
          bPattern = staffDutyPatterns st (sid b);
          isAUnavailable = (sid a \<in> set unavailableStaffIds);
          isBUnavailable = (sid b \<in> set unavailableStaffIds);
          aWeeklyShifts = weeklySchedules st weekKey (sid a);
          bWeeklyShifts = weeklySchedules st weekKey (sid b);
          aDutyTotal = duty aPattern + preDuty aPattern + postDuty aPattern;
          bDutyTotal = duty bPattern + preDuty bPattern + postDuty bPattern;
          aShiftTotal = dayShift aPattern + eveningShift aPattern + nightShift aPattern;
          bShiftTotal = dayShift bPattern + eveningShift bPattern + nightShift bPattern;
          aSpecMatch = (loadSpecialization aLoad = Some un);
          bSpecMatch = (loadSpecialization bLoad = Some un)
      in if isAUnavailable \<noteq> isBUnavailable then (if isAUnavailable then 1 else - 1)
         else if totalShifts aLoad \<noteq> totalShifts bLoad
           then int (totalShifts aLoad) - int (totalShifts bLoad)
         else if aWeeklyShifts \<noteq> bWeeklyShifts then int aWeeklyShifts - int bWeeklyShifts
         else if aDutyTotal \<noteq> bDutyTotal then int aDutyTotal - int bDutyTotal
         else if aShiftTotal \<noteq> bShiftTotal then int aShiftTotal - int bShiftTotal
         else if dayShift aPattern \<noteq> dayShift bPattern
           then int (dayShift aPattern) - int (dayShift bPattern)
         else if eveningShift aPattern \<noteq> eveningShift bPattern
           then int (eveningShift aPattern) - int (eveningShift bPattern)
         else if nightShift aPattern \<noteq> nightShift bPattern
           then int (nightShift aPattern) - int (nightShift bPattern)
         else if restDays aLoad \<noteq> restDays bLoad then int (restDays bLoad) - int (restDays aLoad)
         else if un \<noteq> [] \<and> aSpecMatch \<noteq> bSpecMatch then (if aSpecMatch then - 1 else 1)
         else sid a - sid b)"

text \<open>Steps 1 to 3 of a date: the roster without the unavailable staff, ranked.\<close>

definition availablePool :: "Zone \<Rightarrow> ScheduleInput \<Rightarrow> date \<Rightarrow> GenState \<Rightarrow> StaffWithUser list" where
  "availablePool tz inp date st =
     (let unavailableStaffIds = unavailableIds (availabilities inp) date;
          availableStaff = filter (\<lambda>s. sid s \<notin> set unavailableStaffIds) (staff inp)
      in sortBy (fairnessCompare (unitTag inp) unavailableStaffIds (getWeekKey tz date) st) availableStaff)"

text \<open>\<^verbatim>\<open>availableStaff.filter(s => !assignedShifts[`${s.id}-${date}`])\<close>\<close>

definition unassignedOf :: "date \<Rightarrow> GenState \<Rightarrow> StaffWithUser list \<Rightarrow> StaffWithUser list" where
  "unassignedOf date st pool = filter (\<lambda>s. (sid s, date) \<notin> assignedShifts st) pool"

definition pushConflict ::
  "ConflictType \<Rightarrow> message \<Rightarrow> Severity \<Rightarrow> StaffWithUser \<Rightarrow> date \<Rightarrow> GenState \<Rightarrow> GenState" where
  "pushConflict t m sv sm date st =
     st\<lparr>conflicts := conflicts st @
          [\<lparr>ctype = t, cstaffId = sid sm, cdate = date, cmessage = m, severity = sv,
            staffName = fullName sm\<rparr>]\<rparr>"

definition hasExisting :: "Schedule list \<Rightarrow> int \<Rightarrow> date \<Rightarrow> bool" where
  "hasExisting ex i date = list_ex (\<lambda>s. staffId s = i \<and> sdate s = date) ex"

text \<open>The three checks of a candidate; each carries \<^verbatim>\<open>hasConflict\<close> and the state.\<close>

definition checkExisting ::
  "Schedule list \<Rightarrow> date \<Rightarrow> StaffWithUser \<Rightarrow> bool \<times> GenState \<Rightarrow> bool \<times> GenState" where
  "checkExisting ex date sm hs =
     (if hasExisting ex (sid sm) date
      then (True, pushConflict EXISTING_ASSIGNMENT (AlreadyHasAssignmentOn date) Error sm date (snd hs))
      else hs)"

definition checkConsecutive ::
  "StaffLoad \<Rightarrow> date \<Rightarrow> StaffWithUser \<Rightarrow> bool \<times> GenState \<Rightarrow> bool \<times> GenState" where
  "checkConsecutive staffLoad date sm hs =
     (if consecutiveShifts staffLoad \<ge> MAX_CONSECUTIVE_SHIFTS
      then (True, pushConflict CONSECUTIVE_SHIFTS ExceedsMaxConsecutive Warning sm date (snd hs))
      else hs)"

definition checkWeekly ::
  "nat \<Rightarrow> date \<Rightarrow> StaffWithUser \<Rightarrow> bool \<times> GenState \<Rightarrow> bool \<times> GenState" where
  "checkWeekly weeklyShiftCount date sm hs =
     (if weeklyShiftCount \<ge> MAX_SHIFTS_PER_WEEK
      then (True, pushConflict EXCEEDS_WEEKLY_HOURS ExceedsMaxWeekly Warning sm date (snd hs))
      else hs)"

text \<open>\<^verbatim>\<open>conflicts.find(c => c.staffId === id && c.date === date)?.severity\<close>\<close>

definition firstSeverity :: "ScheduleConflict list \<Rightarrow> int \<Rightarrow> date \<Rightarrow> Severity option" where
  "firstSeverity cs i date = map_option severity (find (\<lambda>c. cstaffId c = i \<and> cdate c = date) cs)"

definition mayAssign :: "bool \<times> GenState \<Rightarrow> StaffWithUser \<Rightarrow> date \<Rightarrow> bool" where
  "mayAssign hs sm date =
     (\<not> fst hs \<or> (fst hs \<and> firstSeverity (conflicts (snd hs)) (sid sm) date = Some Warning))"

text \<open>The day-to-night test of the night loop.\<close>

definition restViolation :: "Zone \<Rightarrow> Consts \<Rightarrow> StaffLoad \<Rightarrow> date \<Rightarrow> bool" where
  "restViolation tz k staffLoad date =
     (case (lastShiftType staffLoad, dayShiftId k) of
        (Some t, Some dsid) \<Rightarrow>
          t \<noteq> 0 \<and> dsid \<noteq> 0 \<and> t = dsid \<and> lastShiftDate staffLoad = Some (getPreviousDay tz date)
      | _ \<Rightarrow> False)"

text \<open>The object literal pushed onto \<^verbatim>\<open>schedules\<close>.\<close>

definition entryOf :: "string \<Rightarrow> date \<Rightarrow> StaffWithUser \<Rightarrow> shiftref \<Rightarrow> int \<Rightarrow> Schedule" where
  "entryOf un date sm shift dty =
     \<lparr>schedId = None, staffId = sid sm, sdate = date, shiftTypeId = shift,
      dutyTypeId = dty, sunit = Some un\<rparr>"

text \<open>
  The block that follows a successful check: push the entry, update the load, the
  pattern and the weekly count, and (in the three shift loops) mark the key.
\<close>

definition recordAssignment ::
  "Zone \<Rightarrow> string \<Rightarrow> date \<Rightarrow> StaffWithUser \<Rightarrow> int option \<Rightarrow> int \<Rightarrow> bool \<Rightarrow>
   (DutyPattern \<Rightarrow> DutyPattern) \<Rightarrow> bool \<Rightarrow> GenState \<Rightarrow> GenState" where
  "recordAssignment tz un date sm shift dty night bump mark st =
     (let i = sid sm;
          l = staffLoads st i;
          weekKey = getWeekKey tz date;
          w = weeklySchedules st
      in st\<lparr>schedules := schedules st @ [entryOf un date sm (toRef shift) dty],
             staffLoads := (staffLoads st)(i :=
               l\<lparr>consecutiveShifts := consecutiveShifts l + 1,
                 totalShifts := totalShifts l + 1,
                 nightShifts := (if night then nightShifts l + 1 else nightShifts l),
                 lastShiftDate := Some date,
                 lastShiftType := orNull shift,
                 restDays := 0\<rparr>),
             staffDutyPatterns := (staffDutyPatterns st)(i := bump (staffDutyPatterns st i)),
             weeklySchedules := w(weekKey := (w weekKey)(i := w weekKey i + 1)),
             assignedShifts := (if mark then insert (i, date) (assignedShifts st) else assignedShifts st)\<rparr>)"

text \<open>
  The three \<^verbatim>\<open>while\<close> loops of a date (day, evening, night) have one shape; a
  \<open>LoopSpec\<close> fixes what differs: whether the same-day duplicate check runs (day loop
  only), what the day-to-night test does (absent; skip; skip after pushing an error),
  the shift type assigned, whether \<^verbatim>\<open>nightShifts\<close> is counted, and the pattern update.
\<close>

datatype restRule = NoRestRule | SkipSilently | SkipWithError

record LoopSpec =
  dupCheck :: bool
  restCheck :: restRule
  loopShift :: "int option"
  countsNight :: bool
  bumpPattern :: "DutyPattern \<Rightarrow> DutyPattern"

text \<open>One iteration: whether the candidate was counted, and the state after it.\<close>

definition loopBody ::
  "Zone \<Rightarrow> ScheduleInput \<Rightarrow> Consts \<Rightarrow> LoopSpec \<Rightarrow> date \<Rightarrow> StaffWithUser \<Rightarrow> GenState \<Rightarrow> bool \<times> GenState" where
  "loopBody tz inp k sp date sm st =
     (let staffLoad = staffLoads st (sid sm);
          weeklyShiftCount = weeklySchedules st (getWeekKey tz date) (sid sm);
          hs0 = (False, st);
          hs1 = (if dupCheck sp then checkExisting (existingSchedules inp) date sm hs0 else hs0);
          hs2 = checkConsecutive staffLoad date sm hs1;
          hs3 = checkWeekly weeklyShiftCount date sm hs2
      in if restCheck sp \<noteq> NoRestRule \<and> restViolation tz k staffLoad date then
           (False,
            if restCheck sp = SkipWithError
            then pushConflict REST_PERIOD_VIOLATION InsufficientRestDayNight Error sm date (snd hs3)
            else snd hs3)
         else if mayAssign hs3 sm date then
           (True, recordAssignment tz (unitTag inp) date sm (loopShift sp) (dutyId k) (countsNight sp)
                    (bumpPattern sp) True (snd hs3))
         else (False, snd hs3))"

text \<open>
  \<^verbatim>\<open>while (assigned < count && index < pool.length)\<close>: the list is the part of the
  pool from \<^verbatim>\<open>index\<close> on. The result holds the counter, the unvisited rest and
  the state.
\<close>

fun shiftLoop ::
  "Zone \<Rightarrow> ScheduleInput \<Rightarrow> Consts \<Rightarrow> LoopSpec \<Rightarrow> date \<Rightarrow> nat \<Rightarrow> StaffWithUser list \<Rightarrow> nat \<Rightarrow> GenState
   \<Rightarrow> nat \<times> StaffWithUser list \<times> GenState" where
  "shiftLoop tz inp k sp date cnt [] assigned st = (assigned, [], st)"
| "shiftLoop tz inp k sp date cnt (sm # rest) assigned st =
     (if assigned < cnt then
        shiftLoop tz inp k sp date cnt rest
          (if fst (loopBody tz inp k sp date sm st) then assigned + 1 else assigned)
          (snd (loopBody tz inp k sp date sm st))
      else (assigned, sm # rest, st))"

definition dayShiftCount :: "StaffWithUser list \<Rightarrow> nat" where
  "dayShiftCount availableStaff = max 1 (ceilDiv (length availableStaff) 3)"

definition eveningShiftCount :: "StaffWithUser list \<Rightarrow> nat" where
  "eveningShiftCount remainingAfterDay = max 1 (ceilDiv (length remainingAfterDay) 2)"

definition nightShiftCount :: "StaffWithUser list \<Rightarrow> nat" where
  "nightShiftCount remainingAfterEvening = max 1 (ceilDiv (length remainingAfterEvening) 3)"

section \<open>The enhanced generator\<close>

definition daySpec_enh :: "Consts \<Rightarrow> LoopSpec" where
  "daySpec_enh k =
     \<lparr>dupCheck = True, restCheck = NoRestRule, loopShift = dayShiftId k, countsNight = False,
      bumpPattern = (\<lambda>p. p\<lparr>duty := duty p + 1, dayShift := dayShift p + 1\<rparr>)\<rparr>"

definition eveningSpec_enh :: "Consts \<Rightarrow> LoopSpec" where
  "eveningSpec_enh k =
     \<lparr>dupCheck = False, restCheck = NoRestRule, loopShift = eveningShiftId k, countsNight = False,
      bumpPattern = (\<lambda>p. p\<lparr>duty := duty p + 1, eveningShift := eveningShift p + 1\<rparr>)\<rparr>"

definition nightSpec_enh :: "Consts \<Rightarrow> LoopSpec" where
  "nightSpec_enh k =
     \<lparr>dupCheck = False, restCheck = SkipSilently, loopShift = nightShiftId k, countsNight = True,
      bumpPattern = (\<lambda>p. p\<lparr>duty := duty p + 1, nightShift := nightShift p + 1\<rparr>)\<rparr>"

definition eveningCompare_enh :: "GenState \<Rightarrow> StaffWithUser \<Rightarrow> StaffWithUser \<Rightarrow> int" where
  "eveningCompare_enh st a b =
     (let aPattern = staffDutyPatterns st (sid a); bPattern = staffDutyPatterns st (sid b)
      in if eveningShift aPattern \<noteq> eveningShift bPattern
         then int (eveningShift aPattern) - int (eveningShift bPattern)
         else int (totalShifts (staffLoads st (sid a))) - int (totalShifts (staffLoads st (sid b))))"

definition nightCompare_enh :: "GenState \<Rightarrow> StaffWithUser \<Rightarrow> StaffWithUser \<Rightarrow> int" where
  "nightCompare_enh st a b =
     (let aLoad = staffLoads st (sid a); bLoad = staffLoads st (sid b);
          aPattern = staffDutyPatterns st (sid a); bPattern = staffDutyPatterns st (sid b)
      in if nightShift aPattern \<noteq> nightShift bPattern
         then int (nightShift aPattern) - int (nightShift bPattern)
         else if nightShifts aLoad \<noteq> nightShifts bLoad
         then int (nightShifts aLoad) - int (nightShifts bLoad)
         else int (totalShifts aLoad) - int (totalShifts bLoad))"

definition preDutyCompare_enh :: "GenState \<Rightarrow> StaffWithUser \<Rightarrow> StaffWithUser \<Rightarrow> int" where
  "preDutyCompare_enh st a b =
     (let aPattern = staffDutyPatterns st (sid a); bPattern = staffDutyPatterns st (sid b)
      in if preDuty aPattern \<noteq> preDuty bPattern
         then int (preDuty aPattern) - int (preDuty bPattern)
         else int (totalShifts (staffLoads st (sid a))) - int (totalShifts (staffLoads st (sid b))))"

definition postDutyCompare_enh :: "GenState \<Rightarrow> StaffWithUser \<Rightarrow> StaffWithUser \<Rightarrow> int" where
  "postDutyCompare_enh st a b =
     (let aPattern = staffDutyPatterns st (sid a); bPattern = staffDutyPatterns st (sid b)
      in if postDuty aPattern \<noteq> postDuty bPattern
         then int (postDuty aPattern) - int (postDuty bPattern)
         else int (totalShifts (staffLoads st (sid a))) - int (totalShifts (staffLoads st (sid b))))"

definition dayPhase ::
  "Zone \<Rightarrow> ScheduleInput \<Rightarrow> Consts \<Rightarrow> LoopSpec \<Rightarrow> date \<Rightarrow> StaffWithUser list \<Rightarrow> GenState
   \<Rightarrow> nat \<times> StaffWithUser list \<times> GenState" where
  "dayPhase tz inp k sp date availableStaff st =
     shiftLoop tz inp k sp date (dayShiftCount availableStaff) availableStaff 0 st"

definition eveningPhase_enh ::
  "Zone \<Rightarrow> ScheduleInput \<Rightarrow> Consts \<Rightarrow> date \<Rightarrow> StaffWithUser list \<Rightarrow> GenState
   \<Rightarrow> nat \<times> StaffWithUser list \<times> GenState" where
  "eveningPhase_enh tz inp k date availableStaff st =
     (let remainingAfterDay = unassignedOf date st availableStaff
      in shiftLoop tz inp k (eveningSpec_enh k) date (eveningShiftCount remainingAfterDay)
           (sortBy (eveningCompare_enh st) remainingAfterDay) 0 st)"

definition nightPhase_enh ::
  "Zone \<Rightarrow> ScheduleInput \<Rightarrow> Consts \<Rightarrow> date \<Rightarrow> StaffWithUser list \<Rightarrow> GenState
   \<Rightarrow> nat \<times> StaffWithUser list \<times> GenState" where
  "nightPhase_enh tz inp k date availableStaff st =
     (let remainingAfterEvening = sortBy (nightCompare_enh st) (unassignedOf date st availableStaff)
      in shiftLoop tz inp k (nightSpec_enh k) date (nightShiftCount remainingAfterEvening)
           remainingAfterEvening 0 st)"

text \<open>
  Steps 7 and 8 of the enhanced generator: at most one candidate (the first of the
  re-ranked unmarked staff), skipped with a warning at the weekly limit; the entry
  carries the day shift type. Neither step writes \<^verbatim>\<open>assignedShifts\<close>.
\<close>

definition dutyStep_enh ::
  "Zone \<Rightarrow> ScheduleInput \<Rightarrow> Consts \<Rightarrow> date \<Rightarrow> int \<Rightarrow> (DutyPattern \<Rightarrow> DutyPattern) \<Rightarrow>
   StaffWithUser list \<Rightarrow> GenState \<Rightarrow> GenState" where
  "dutyStep_enh tz inp k date dty bump candidates st =
     (case candidates of
        [] \<Rightarrow> st
      | staffMember # _ \<Rightarrow>
          if weeklySchedules st (getWeekKey tz date) (sid staffMember) \<ge> MAX_SHIFTS_PER_WEEK
          then pushConflict EXCEEDS_WEEKLY_HOURS ExceedsMaxWeekly Warning staffMember date st
          else recordAssignment tz (unitTag inp) date staffMember (dayShiftId k) dty False bump False st)"

definition preDutyPhase_enh ::
  "Zone \<Rightarrow> ScheduleInput \<Rightarrow> Consts \<Rightarrow> date list \<Rightarrow> date \<Rightarrow> StaffWithUser list \<Rightarrow> GenState \<Rightarrow> GenState" where
  "preDutyPhase_enh tz inp k dates date availableStaff st =
     (if addDays tz 1 date \<in> set dates then
        dutyStep_enh tz inp k date (preDutyId k)
          (\<lambda>p. p\<lparr>preDuty := preDuty p + 1, dayShift := dayShift p + 1\<rparr>)
          (sortBy (preDutyCompare_enh st) (unassignedOf date st availableStaff)) st
      else st)"

definition postDutyPhase_enh ::
  "Zone \<Rightarrow> ScheduleInput \<Rightarrow> Consts \<Rightarrow> date list \<Rightarrow> date \<Rightarrow> StaffWithUser list \<Rightarrow> GenState \<Rightarrow> GenState" where
  "postDutyPhase_enh tz inp k dates date availableStaff st =
     (if addDays tz (- 1) date \<in> set dates then
        dutyStep_enh tz inp k date (postDutyId k)
          (\<lambda>p. p\<lparr>postDuty := postDuty p + 1, dayShift := dayShift p + 1\<rparr>)
          (sortBy (postDutyCompare_enh st) (unassignedOf date st availableStaff)) st
      else st)"

text \<open>The body of \<^verbatim>\<open>dates.forEach\<close> in the enhanced generator.\<close>

definition processDate_enh ::
  "Zone \<Rightarrow> ScheduleInput \<Rightarrow> Consts \<Rightarrow> date list \<Rightarrow> date \<Rightarrow> GenState \<Rightarrow> GenState" where
  "processDate_enh tz inp k dates date st =
     (let st0 = st\<lparr>assignedShifts := {}\<rparr>;
          availableStaff = availablePool tz inp date st0;
          st1 = snd (snd (dayPhase tz inp k (daySpec_enh k) date availableStaff st0));
          st2 = snd (snd (eveningPhase_enh tz inp k date availableStaff st1));
          st3 = snd (snd (nightPhase_enh tz inp k date availableStaff st2));
          st4 = preDutyPhase_enh tz inp k dates date availableStaff st3
      in postDutyPhase_enh tz inp k dates date availableStaff st4)"

definition consts_enh :: "ScheduleInput \<Rightarrow> Consts" where
  "consts_enh inp =
     \<lparr>preDutyId = findDutyId (dutyTypes inp) ''Pre-Duty'',
      dutyId = findDutyId (dutyTypes inp) ''Duty'',
      postDutyId = findDutyId (dutyTypes inp) ''Post-Duty'',
      dayShiftId = findShiftId (shiftTypes inp) (\<lambda>n. n = ''Day Shift''),
      eveningShiftId = findShiftId (shiftTypes inp) (\<lambda>n. n = ''Evening Shift'' \<or> n = ''Mid Shift''),
      nightShiftId = findShiftId (shiftTypes inp) (\<lambda>n. n = ''Night Shift'')\<rparr>"

text \<open>
  The loop that fills \<^verbatim>\<open>dates\<close>: \<^verbatim>\<open>while (currentDate <= end)\<close> compares
  instants, each iteration pushes the UTC day of \<^verbatim>\<open>currentDate\<close> and moves it one
  local day on.
\<close>

function dateLoop :: "Zone \<Rightarrow> instant \<Rightarrow> instant \<Rightarrow> date list" where
  "dateLoop tz endT currentDate =
     (if currentDate \<le> endT
      then toISODate currentDate # dateLoop tz endT (setDateBy tz 1 currentDate)
      else [])"
  by pat_completeness auto
termination
  by (relation "measure (\<lambda>(tz, endT, currentDate). nat (endT + 1 - currentDate))")
    (auto simp: setDateBy_def utcTime_def localTime_def msPerDay_def msPerHour_def)

definition datesOf :: "Zone \<Rightarrow> ScheduleInput \<Rightarrow> date list" where
  "datesOf tz inp = dateLoop tz (newDate (endDate inp)) (newDate (startDate inp))"

text \<open>The state when \<^verbatim>\<open>generateSchedule\<close> of the enhanced module returns.\<close>

definition runSchedule_enh :: "Zone \<Rightarrow> ScheduleInput \<Rightarrow> GenState" where
  "runSchedule_enh tz inp =
     (let k = consts_enh inp;
          dates = datesOf tz inp
      in fold (processDate_enh tz inp k dates) dates (seedState tz inp k))"

definition generateSchedule_enh :: "Zone \<Rightarrow> ScheduleInput \<Rightarrow> Schedule list \<times> ScheduleConflict list" where
  "generateSchedule_enh tz inp = (schedules (runSchedule_enh tz inp), conflicts (runSchedule_enh tz inp))"

section \<open>The base generator\<close>

definition daySpec_base :: "Consts \<Rightarrow> LoopSpec" where
  "daySpec_base k =
     \<lparr>dupCheck = True, restCheck = NoRestRule, loopShift = dayShiftId k, countsNight = False,
      bumpPattern = (\<lambda>p. p\<lparr>duty := duty p + 1\<rparr>)\<rparr>"

definition eveningSpec_base :: "Consts \<Rightarrow> LoopSpec" where
  "eveningSpec_base k =
     \<lparr>dupCheck = False, restCheck = NoRestRule, loopShift = eveningShiftId k, countsNight = False,
      bumpPattern = (\<lambda>p. p\<lparr>duty := duty p + 1\<rparr>)\<rparr>"

definition nightSpec_base :: "Consts \<Rightarrow> LoopSpec" where
  "nightSpec_base k =
     \<lparr>dupCheck = False, restCheck = SkipWithError, loopShift = nightShiftId k, countsNight = True,
      bumpPattern = (\<lambda>p. p\<lparr>duty := duty p + 1\<rparr>)\<rparr>"

definition nightCompare_base :: "GenState \<Rightarrow> StaffWithUser \<Rightarrow> StaffWithUser \<Rightarrow> int" where
  "nightCompare_base st a b =
     (let aLoad = staffLoads st (sid a); bLoad = staffLoads st (sid b)
      in if nightShifts aLoad \<noteq> nightShifts bLoad
         then int (nightShifts aLoad) - int (nightShifts bLoad)
         else int (totalShifts aLoad) - int (totalShifts bLoad))"

definition eveningPhase_base ::
  "Zone \<Rightarrow> ScheduleInput \<Rightarrow> Consts \<Rightarrow> date \<Rightarrow> StaffWithUser list \<Rightarrow> GenState
   \<Rightarrow> nat \<times> StaffWithUser list \<times> GenState" where
  "eveningPhase_base tz inp k date availableStaff st =
     (let remainingAfterDay = unassignedOf date st availableStaff
      in shiftLoop tz inp k (eveningSpec_base k) date (eveningShiftCount remainingAfterDay)
           remainingAfterDay 0 st)"

definition nightPhase_base ::
  "Zone \<Rightarrow> ScheduleInput \<Rightarrow> Consts \<Rightarrow> date \<Rightarrow> StaffWithUser list \<Rightarrow> GenState
   \<Rightarrow> nat \<times> StaffWithUser list \<times> GenState" where
  "nightPhase_base tz inp k date availableStaff st =
     (let remainingAfterEvening = sortBy (nightCompare_base st) (unassignedOf date st availableStaff)
      in shiftLoop tz inp k (nightSpec_base k) date (nightShiftCount remainingAfterEvening)
           remainingAfterEvening 0 st)"

text \<open>
  The body of the two \<^verbatim>\<open>forEach\<close> loops that hand out Pre-Duty and Post-Duty in the
  base generator: a rest day for the counters, an entry with a \<^verbatim>\<open>null\<close> shift type,
  and the key marked.
\<close>

definition restDuty_base ::
  "string \<Rightarrow> date \<Rightarrow> int \<Rightarrow> (DutyPattern \<Rightarrow> DutyPattern) \<Rightarrow> StaffWithUser \<Rightarrow> GenState \<Rightarrow> GenState" where
  "restDuty_base un date dty bump s st =
     (let i = sid s; l = staffLoads st i
      in st\<lparr>staffLoads := (staffLoads st)(i := l\<lparr>consecutiveShifts := 0, restDays := restDays l + 1\<rparr>),
             schedules := schedules st @ [entryOf un date s Null dty],
             staffDutyPatterns := (staffDutyPatterns st)(i := bump (staffDutyPatterns st i)),
             assignedShifts := insert (i, date) (assignedShifts st)\<rparr>)"

definition dutyPhase_base ::
  "ScheduleInput \<Rightarrow> Consts \<Rightarrow> date \<Rightarrow> StaffWithUser list \<Rightarrow> GenState \<Rightarrow> GenState" where
  "dutyPhase_base inp k date availableStaff st =
     (let unassignedStaff =
            sortBy (\<lambda>a b. int (preDuty (staffDutyPatterns st (sid a)))
                          - int (preDuty (staffDutyPatterns st (sid b))))
              (unassignedOf date st availableStaff);
          preDutyStaff = take (length unassignedStaff div 2) unassignedStaff;
          st1 = fold (restDuty_base (unitTag inp) date (preDutyId k)
                        (\<lambda>p. p\<lparr>preDuty := preDuty p + 1\<rparr>)) preDutyStaff st;
          remainingForPostDuty = unassignedOf date st1 unassignedStaff
      in fold (restDuty_base (unitTag inp) date (postDutyId k)
                 (\<lambda>p. p\<lparr>postDuty := postDuty p + 1\<rparr>)) remainingForPostDuty st1)"

text \<open>The closing \<^verbatim>\<open>staff.forEach\<close> of a date in the base generator.\<close>

definition restUnassigned_base :: "date \<Rightarrow> StaffWithUser \<Rightarrow> GenState \<Rightarrow> GenState" where
  "restUnassigned_base date s st =
     (if (sid s, date) \<notin> assignedShifts st then
        (let l = staffLoads st (sid s)
         in st\<lparr>staffLoads := (staffLoads st)(sid s := l\<lparr>consecutiveShifts := 0, restDays := restDays l + 1\<rparr>)\<rparr>)
      else st)"

definition processDate_base ::
  "Zone \<Rightarrow> ScheduleInput \<Rightarrow> Consts \<Rightarrow> date \<Rightarrow> GenState \<Rightarrow> GenState" where
  "processDate_base tz inp k date st =
     (let st0 = st\<lparr>assignedShifts := {}\<rparr>;
          availableStaff = availablePool tz inp date st0;
          st1 = snd (snd (dayPhase tz inp k (daySpec_base k) date availableStaff st0));
          st2 = snd (snd (eveningPhase_base tz inp k date availableStaff st1));
          st3 = snd (snd (nightPhase_base tz inp k date availableStaff st2));
          st4 = dutyPhase_base inp k date availableStaff st3
      in fold (restUnassigned_base date) (staff inp) st4)"

definition consts_base :: "ScheduleInput \<Rightarrow> Consts" where
  "consts_base inp =
     \<lparr>preDutyId = findDutyId (dutyTypes inp) ''Pre-Duty'',
      dutyId = findDutyId (dutyTypes inp) ''Duty'',
      postDutyId = findDutyId (dutyTypes inp) ''Post-Duty'',
      dayShiftId = findShiftId (shiftTypes inp) (\<lambda>n. n = ''Day Shift''),
      eveningShiftId = findShiftId (shiftTypes inp) (\<lambda>n. n = ''Evening Shift''),
      nightShiftId = findShiftId (shiftTypes inp) (\<lambda>n. n = ''Night Shift'')\<rparr>"

definition runSchedule_base :: "Zone \<Rightarrow> ScheduleInput \<Rightarrow> GenState" where
  "runSchedule_base tz inp =
     (let k = consts_base inp
      in fold (processDate_base tz inp k) (datesOf tz inp) (seedState tz inp k))"

definition generateSchedule_base :: "Zone \<Rightarrow> ScheduleInput \<Rightarrow> Schedule list \<times> ScheduleConflict list" where
  "generateSchedule_base tz inp = (schedules (runSchedule_base tz inp), conflicts (runSchedule_base tz inp))"

section \<open>The store of the detectors\<close>

text \<open>
  \<^verbatim>\<open>detectScheduleConflicts\<close> receives references: the candidate entry is an object,
  the schedule list an array of objects (the base detector compares them with the
  candidate by reference, \<^verbatim>\<open>s !== schedule\<close>), the roster, the availability records
  and the shift catalog are arrays. The store is a list of cells and an address is an
  index into it. Allocation appends a cell; \<^verbatim>\<open>push\<close> and the in-place
  \<^verbatim>\<open>sort\<close> overwrite the cell of the array they are called on.
\<close>

datatype cell =
  SchedObj Schedule
  | RefArr "nat list"
  | StaffArr "StaffWithUser list"
  | AvailArr "Availability list"
  | ShiftArr "ShiftType list"
  | DateArr "date list"
  | ConflictArr "ScheduleConflict list"

type_synonym heap = "cell list"

definition cellAt :: "heap \<Rightarrow> nat \<Rightarrow> cell option" where
  "cellAt h a = (if a < length h then Some (h ! a) else None)"

definition alloc :: "heap \<Rightarrow> cell \<Rightarrow> nat \<times> heap" where
  "alloc h c = (length h, h @ [c])"

definition readSched :: "heap \<Rightarrow> nat \<Rightarrow> Schedule option" where
  "readSched h a = (case cellAt h a of Some (SchedObj s) \<Rightarrow> Some s | _ \<Rightarrow> None)"

text \<open>The objects an array of references holds, each with its address.\<close>

fun readRefs :: "heap \<Rightarrow> nat list \<Rightarrow> (nat \<times> Schedule) list option" where
  "readRefs h [] = Some []"
| "readRefs h (r # rs) =
     (case readSched h r of
        None \<Rightarrow> None
      | Some s \<Rightarrow> (case readRefs h rs of None \<Rightarrow> None | Some xs \<Rightarrow> Some ((r, s) # xs)))"

definition readEntries :: "heap \<Rightarrow> nat \<Rightarrow> (nat \<times> Schedule) list option" where
  "readEntries h a = (case cellAt h a of Some (RefArr rs) \<Rightarrow> readRefs h rs | _ \<Rightarrow> None)"

definition readStaff :: "heap \<Rightarrow> nat \<Rightarrow> StaffWithUser list option" where
  "readStaff h a = (case cellAt h a of Some (StaffArr xs) \<Rightarrow> Some xs | _ \<Rightarrow> None)"

definition readAvail :: "heap \<Rightarrow> nat \<Rightarrow> Availability list option" where
  "readAvail h a = (case cellAt h a of Some (AvailArr xs) \<Rightarrow> Some xs | _ \<Rightarrow> None)"

definition readShifts :: "heap \<Rightarrow> nat \<Rightarrow> ShiftType list option" where
  "readShifts h a = (case cellAt h a of Some (ShiftArr xs) \<Rightarrow> Some xs | _ \<Rightarrow> None)"

definition readConflicts :: "heap \<Rightarrow> nat \<Rightarrow> ScheduleConflict list option" where
  "readConflicts h a = (case cellAt h a of Some (ConflictArr xs) \<Rightarrow> Some xs | _ \<Rightarrow> None)"

definition readDates :: "heap \<Rightarrow> nat \<Rightarrow> date list" where
  "readDates h a = (case cellAt h a of Some (DateArr xs) \<Rightarrow> xs | _ \<Rightarrow> [])"

text \<open>\<^verbatim>\<open>conflicts.push(c)\<close> on the array at address \<open>a\<close>.\<close>

definition pushH :: "heap \<Rightarrow> nat \<Rightarrow> ScheduleConflict \<Rightarrow> heap" where
  "pushH h a c =
     (case cellAt h a of Some (ConflictArr cs) \<Rightarrow> h[a := ConflictArr (cs @ [c])] | _ \<Rightarrow> h)"

text \<open>\<^verbatim>\<open>if (b) { conflicts.push(c) }\<close>\<close>

definition pushWhen :: "bool \<Rightarrow> heap \<Rightarrow> nat \<Rightarrow> ScheduleConflict \<Rightarrow> heap" where
  "pushWhen b h a c = (if b then pushH h a c else h)"

text \<open>\<^verbatim>\<open>dates.sort()\<close> on the array of date strings at address \<open>a\<close>.\<close>

definition sortH :: "heap \<Rightarrow> nat \<Rightarrow> heap" where
  "sortH h a = (case cellAt h a of Some (DateArr ds) \<Rightarrow> h[a := DateArr (sort ds)] | _ \<Rightarrow> h)"

text \<open>A truthy string: neither \<^verbatim>\<open>null\<close>, \<^verbatim>\<open>undefined\<close> nor empty.\<close>

definition truthyString :: "string option \<Rightarrow> string option" where
  "truthyString x = (case x of None \<Rightarrow> None | Some s \<Rightarrow> if s = [] then None else Some s)"

text \<open>The text a string-valued field interpolates into a message.\<close>

definition stringOf :: "string option \<Rightarrow> string" where
  "stringOf x = (case x of None \<Rightarrow> [] | Some s \<Rightarrow> s)"

section \<open>The base detector and suggester\<close>

text \<open>
  The two \<^verbatim>\<open>while\<close> loops that count the contiguous days around the candidate. Each
  iteration recomputes \<^verbatim>\<open>checkDate\<close> from its own string, one local day back or
  forth; the loop ends at the first \<^verbatim>\<open>checkDate\<close> on which the staff member has no
  entry with a non-null shift type. The step back always reaches an earlier day. The
  step forth can return the day it started from (the local day that is 23 hours long),
  so the forward loop need not end: \<open>None\<close> is the call that does not return.
\<close>

definition worksOn :: "(nat \<times> Schedule) list \<Rightarrow> int \<Rightarrow> date \<Rightarrow> bool" where
  "worksOn alls i checkDate =
     list_ex (\<lambda>rs. staffId (snd rs) = i \<and> sdate (snd rs) = checkDate \<and> shiftTypeId (snd rs) \<noteq> Null) alls"

function countBackwards :: "Zone \<Rightarrow> (nat \<times> Schedule) list \<Rightarrow> int \<Rightarrow> date \<Rightarrow> nat \<Rightarrow> nat" where
  "countBackwards tz alls i checkDate consecutive =
     (if worksOn alls i checkDate
      then countBackwards tz alls i (addDays tz (- 1) checkDate) (consecutive + 1)
      else consecutive)"
  by pat_completeness auto
termination
proof (relation "measure (\<lambda>(tz, alls, i, checkDate, n).
                   if alls = [] then 0 else nat (checkDate + 1 - Min (set (map (sdate \<circ> snd) alls))))")
  show "wf (measure (\<lambda>(tz, alls, i, checkDate, n).
                   if alls = [] then 0 else nat (checkDate + 1 - Min (set (map (sdate \<circ> snd) alls)))))"
    by simp
next
  fix tz :: Zone and alls :: "(nat \<times> Schedule) list" and i :: int and checkDate :: date
    and consecutive :: nat
  assume w: "worksOn alls i checkDate"
  then have ne: "alls \<noteq> []" by (auto simp: worksOn_def)
  from w have "checkDate \<in> set (map (sdate \<circ> snd) alls)"
    by (auto simp: worksOn_def list_ex_iff intro!: image_eqI)
  then have m: "Min (set (map (sdate \<circ> snd) alls)) \<le> checkDate"
    by (intro Min_le) auto
  have "setDateBy tz (- 1) (newDate checkDate) < checkDate * 86400000"
    by (auto simp: setDateBy_def utcTime_def localTime_def newDate_def msPerDay_def msPerHour_def)
  then have "addDays tz (- 1) checkDate < checkDate"
    by (simp add: addDays_def toISODate_def msPerDay_def div_less_iff_less_mult)
  then show "((tz, alls, i, addDays tz (- 1) checkDate, consecutive + 1), tz, alls, i, checkDate, consecutive)
        \<in> measure (\<lambda>(tz, alls, i, checkDate, n).
                   if alls = [] then 0 else nat (checkDate + 1 - Min (set (map (sdate \<circ> snd) alls))))"
    using ne m by simp
qed

partial_function (option) countForwards ::
  "Zone \<Rightarrow> (nat \<times> Schedule) list \<Rightarrow> int \<Rightarrow> date \<Rightarrow> nat \<Rightarrow> nat option" where
  "countForwards tz alls i checkDate consecutive =
     (if worksOn alls i checkDate
      then countForwards tz alls i (addDays tz 1 checkDate) (consecutive + 1)
      else Some consecutive)"

declare countForwards.simps [code]

text \<open>\<^verbatim>\<open>id ? shiftTypes.find(s => s.id === id) : null\<close>\<close>

definition shiftOf :: "ShiftType list \<Rightarrow> shiftref \<Rightarrow> ShiftType option" where
  "shiftOf sts r = (case truthyShift r of None \<Rightarrow> None | Some t \<Rightarrow> find (\<lambda>s. stid s = t) sts)"

text \<open>
  \<^verbatim>\<open>detectScheduleConflicts\<close> of the base module. The arguments are the store and the
  addresses of the candidate, of \<^verbatim>\<open>allSchedules\<close>, \<^verbatim>\<open>staff\<close>, \<^verbatim>\<open>availabilities\<close>
  and \<^verbatim>\<open>shiftTypes\<close>; the result is the address of the returned array and the store
  after the call, or \<open>None\<close> when an address does not hold what its TypeScript type
  says or the forward loop does not end. The arrays are read where the call starts: the function writes to the array it
  allocates for \<^verbatim>\<open>conflicts\<close> and to nothing else.
\<close>

definition detectScheduleConflicts_base ::
  "Zone \<Rightarrow> heap \<Rightarrow> nat \<Rightarrow> nat \<Rightarrow> nat \<Rightarrow> nat \<Rightarrow> nat \<Rightarrow> (nat \<times> heap) option" where
  "detectScheduleConflicts_base tz h schedule allSchedules staffArr availArr shiftArr =
     (case readSched h schedule of None \<Rightarrow> None | Some sch \<Rightarrow>
      case readEntries h allSchedules of None \<Rightarrow> None | Some alls \<Rightarrow>
      case readStaff h staffArr of None \<Rightarrow> None | Some stf \<Rightarrow>
      case readAvail h availArr of None \<Rightarrow> None | Some avs \<Rightarrow>
      case readShifts h shiftArr of None \<Rightarrow> None | Some sts \<Rightarrow>
        (let conflicts = fst (alloc h (ConflictArr []));
             h0 = snd (alloc h (ConflictArr []))
         in case find (\<lambda>s. sid s = staffId sch) stf of
              None \<Rightarrow> Some (conflicts, h0)
            | Some staffMember \<Rightarrow>
                (let mk = (\<lambda>t m sv. \<lparr>ctype = t, cstaffId = staffId sch, cdate = sdate sch,
                                      cmessage = m, severity = sv, staffName = fullName staffMember\<rparr>);
                     isUnavailable' = list_ex (\<lambda>a. avStaffId a = staffId sch \<and> avDate a = sdate sch
                                                  \<and> \<not> isAvailable a) avs;
                     h1 = pushWhen isUnavailable' h0 conflicts
                            (mk UNAVAILABLE_STAFF MarkedUnavailable Error);
                     hasDuplicate = list_ex (\<lambda>rs. staffId (snd rs) = staffId sch
                                                 \<and> sdate (snd rs) = sdate sch \<and> fst rs \<noteq> schedule) alls;
                     h2 = pushWhen hasDuplicate h1 conflicts
                            (mk EXISTING_ASSIGNMENT AlreadyAssignedOnDate Error);
                     previousDayStr = addDays tz (- 1) (sdate sch);
                     nextDayStr = addDays tz 1 (sdate sch);
                     prevSchedule = find (\<lambda>rs. staffId (snd rs) = staffId sch
                                               \<and> sdate (snd rs) = previousDayStr) alls;
                     currentShift = shiftOf sts (shiftTypeId sch);
                     prevShift = (case prevSchedule of None \<Rightarrow> None
                                  | Some rs \<Rightarrow> shiftOf sts (shiftTypeId (snd rs)));
                     h3 = pushWhen (map_option stname currentShift = Some ''Night Shift''
                                    \<and> map_option stname prevShift = Some ''Day Shift'') h2 conflicts
                            (mk REST_PERIOD_VIOLATION InsufficientRestDayNight Error);
                     h4 = pushWhen (map_option stname currentShift = Some ''Day Shift''
                                    \<and> map_option stname prevShift = Some ''Night Shift'') h3 conflicts
                            (mk REST_PERIOD_VIOLATION InsufficientRestNightDay Error);
                     h5 = pushWhen (truthyString (sunit sch) \<noteq> None
                                    \<and> truthyString (specialization staffMember) \<noteq> None
                                    \<and> sunit sch \<noteq> specialization staffMember) h4 conflicts
                            (mk SPECIALIZATION_MISMATCH
                               (SpecializationDiffers (stringOf (specialization staffMember))
                                  (stringOf (sunit sch))) Warning)
                 in case countForwards tz alls (staffId sch) nextDayStr
                           (countBackwards tz alls (staffId sch) previousDayStr 1) of
                      None \<Rightarrow> None
                    | Some consecutive \<Rightarrow>
                        Some (conflicts,
                              pushWhen (consecutive > MAX_CONSECUTIVE_SHIFTS) h5 conflicts
                                (mk CONSECUTIVE_SHIFTS (NConsecutiveExceeds consecutive)
                                   Warning)))))"

text \<open>\<^verbatim>\<open>hasShiftConflict\<close>\<close>

definition hasShiftConflict :: "int \<Rightarrow> date \<Rightarrow> Schedule list \<Rightarrow> bool" where
  "hasShiftConflict i date es = list_ex (\<lambda>s. staffId s = i \<and> sdate s = date) es"

text \<open>
  \<^verbatim>\<open>suggestAlternativeStaff\<close> of the base module, on values: it allocates its result
  and writes to nothing else. Its \<^verbatim>\<open>dateObj\<close> is local midnight of the requested date. The comparator returns \<open>- 1\<close> or \<open>1\<close> on a one-sided
  specialization match when a unit is given and the difference of the shift counts
  otherwise.
\<close>

definition suggestCompare_base ::
  "Schedule list \<Rightarrow> string option \<Rightarrow> StaffWithUser \<Rightarrow> StaffWithUser \<Rightarrow> int" where
  "suggestCompare_base es un a b =
     (let aMatch = (case truthyString un of None \<Rightarrow> False | Some u \<Rightarrow> specialization a = Some u);
          bMatch = (case truthyString un of None \<Rightarrow> False | Some u \<Rightarrow> specialization b = Some u);
          aShifts = length (filter (\<lambda>s. staffId s = sid a \<and> shiftTypeId s \<noteq> Null) es);
          bShifts = length (filter (\<lambda>s. staffId s = sid b \<and> shiftTypeId s \<noteq> Null) es)
      in if truthyString un \<noteq> None \<and> aMatch \<and> \<not> bMatch then - 1
         else if truthyString un \<noteq> None \<and> \<not> aMatch \<and> bMatch then 1
         else int aShifts - int bShifts)"

definition suggestAlternativeStaff_base ::
  "Zone \<Rightarrow> int \<Rightarrow> date \<Rightarrow> shiftref \<Rightarrow> StaffWithUser list \<Rightarrow> Schedule list \<Rightarrow> Availability list \<Rightarrow>
   string option \<Rightarrow> StaffWithUser list" where
  "suggestAlternativeStaff_base tz staffId' date shiftTypeId' stf es avs un =
     (let otherStaff = filter (\<lambda>s. sid s \<noteq> staffId') stf;
          unavailableStaffIds = unavailableIds avs date;
          dateObj = newLocalDate tz date;
          prevDateStr = toISODate (setDateBy tz (- 1) dateObj);
          nextDateStr = toISODate (setDateBy tz 1 dateObj);
          keep = (\<lambda>s.
            if sid s \<in> set unavailableStaffIds then False
            else if hasShiftConflict (sid s) date es then False
            else
              (let c0 = (1::nat);
                   c1 = (if list_ex (\<lambda>e. staffId e = sid s \<and> sdate e = prevDateStr
                                          \<and> shiftTypeId e \<noteq> Null) es then c0 + 1 else c0);
                   c2 = (if list_ex (\<lambda>e. staffId e = sid s \<and> sdate e = nextDateStr
                                          \<and> shiftTypeId e \<noteq> Null) es then c1 + 1 else c1)
               in \<not> c2 > MAX_CONSECUTIVE_SHIFTS))
      in sortBy (suggestCompare_base es un) (filter keep otherStaff))"

section \<open>The enhanced detector and suggester\<close>

text \<open>The \<^verbatim>\<open>for\<close> loop over the sorted dates: the longest run of consecutive days.\<close>

fun runLoop :: "date \<Rightarrow> date list \<Rightarrow> nat \<Rightarrow> nat \<Rightarrow> nat" where
  "runLoop prevDate [] consecutiveCount maxConsecutive = maxConsecutive"
| "runLoop prevDate (currDate # ds) consecutiveCount maxConsecutive =
     (let c = (if currDate - prevDate = 1 then consecutiveCount + 1 else 1)
      in runLoop currDate ds c (max maxConsecutive c))"

definition maxConsecutiveOf :: "date list \<Rightarrow> nat" where
  "maxConsecutiveOf ds = (case ds of [] \<Rightarrow> 0 | d # rest \<Rightarrow> runLoop d rest 1 1)"

text \<open>
  \<^verbatim>\<open>detectScheduleConflicts\<close> of the enhanced module, with the same arguments. It
  allocates \<^verbatim>\<open>conflicts\<close>, the arrays that \<^verbatim>\<open>filter\<close> and \<^verbatim>\<open>map\<close> return, and
  sorts the array of dates in place. The weekly count, the rest-hour computation and the
  specialization test guard blocks whose only statement is commented out; of them the
  embedding keeps the array the weekly \<^verbatim>\<open>filter\<close> allocates. The lookup objects
  \<^verbatim>\<open>staffMap\<close> and \<^verbatim>\<open>shiftTypesMap\<close> are fresh, local and read by those blocks
  only. The availability array is never dereferenced.
\<close>

definition detectScheduleConflicts_enh ::
  "Zone \<Rightarrow> heap \<Rightarrow> nat \<Rightarrow> nat \<Rightarrow> nat \<Rightarrow> nat \<Rightarrow> nat \<Rightarrow> (nat \<times> heap) option" where
  "detectScheduleConflicts_enh tz h schedule schedulesArr staffList availArr shiftArr =
     (case readSched h schedule of None \<Rightarrow> None | Some sch \<Rightarrow>
      case readEntries h schedulesArr of None \<Rightarrow> None | Some alls \<Rightarrow>
      case readStaff h staffList of None \<Rightarrow> None | Some stf \<Rightarrow>
      case readShifts h shiftArr of None \<Rightarrow> None | Some sts \<Rightarrow>
        (let conflicts = fst (alloc h (ConflictArr []));
             h0 = snd (alloc h (ConflictArr []))
         in case find (\<lambda>s. sid s = staffId sch) stf of
              None \<Rightarrow> Some (conflicts, h0)
            | Some staffMember \<Rightarrow>
                (let mk = (\<lambda>t m sv. \<lparr>ctype = t, cstaffId = staffId sch, cdate = sdate sch,
                                      cmessage = m, severity = sv, staffName = fullName staffMember\<rparr>);
                     existingSchedule = find (\<lambda>rs. staffId (snd rs) = staffId sch
                                                  \<and> sdate (snd rs) = sdate sch
                                                  \<and> schedId (snd rs) \<noteq> schedId sch) alls;
                     h1 = pushWhen (existingSchedule \<noteq> None) h0 conflicts
                            (mk EXISTING_ASSIGNMENT (AlreadyHasAssignmentOn (sdate sch)) Error);
                     own = filter (\<lambda>rs. staffId (snd rs) = staffId sch) alls;
                     h2 = snd (alloc h1 (RefArr (map fst own)));
                     dates = fst (alloc h2 (DateArr (map (sdate \<circ> snd) own)));
                     h3 = snd (alloc h2 (DateArr (map (sdate \<circ> snd) own)));
                     h4 = sortH h3 dates;
                     h5 = pushWhen (readDates h4 dates \<noteq> []
                                    \<and> maxConsecutiveOf (readDates h4 dates) > MAX_CONSECUTIVE_SHIFTS)
                            h4 conflicts (mk CONSECUTIVE_SHIFTS ExceedsMaxConsecutive Warning);
                     scheduleDate = newDate (sdate sch);
                     weekStart = setDateBy tz (- getDay tz scheduleDate) scheduleDate;
                     weekEnd = setDateBy tz 6 weekStart;
                     h6 = snd (alloc h5 (RefArr (map fst
                            (filter (\<lambda>rs. staffId (snd rs) = staffId sch
                                        \<and> weekStart \<le> newDate (sdate (snd rs))
                                        \<and> newDate (sdate (snd rs)) \<le> weekEnd) alls))))
                 in Some (conflicts, h6))))"

text \<open>\<^verbatim>\<open>suggestAlternativeStaff\<close> of the enhanced module, on values.\<close>

definition suggestAlternativeStaff_enh ::
  "int \<Rightarrow> date \<Rightarrow> shiftref \<Rightarrow> StaffWithUser list \<Rightarrow> Schedule list \<Rightarrow> Availability list \<Rightarrow>
   string option \<Rightarrow> StaffWithUser list" where
  "suggestAlternativeStaff_enh staffId' date shiftTypeId' stf es avs unitSpecialization =
     (let assignedStaffIds = map staffId (filter (\<lambda>s. sdate s = date) es);
          availableStaff = filter (\<lambda>s. sid s \<notin> set assignedStaffIds) stf;
          specializedStaff =
            (case truthyString unitSpecialization of
               None \<Rightarrow> []
             | Some u \<Rightarrow> filter (\<lambda>s. specialization s = Some u) availableStaff);
          availableStaff' = (if specializedStaff \<noteq> [] then specializedStaff else availableStaff);
          staffShiftCounts = (\<lambda>i. length (filter (\<lambda>schedule. staffId schedule = i) es))
      in sortBy (\<lambda>a b. int (staffShiftCounts (sid a)) - int (staffShiftCounts (sid b))) availableStaff')"

section \<open>Predicates of the claims and concrete inputs\<close>

definition isUnavailable :: "Availability list \<Rightarrow> int \<Rightarrow> date \<Rightarrow> bool" where
  "isUnavailable avs s d = list_ex (\<lambda>a. avStaffId a = s \<and> avDate a = d \<and> \<not> isAvailable a) avs"

definition hasEntry :: "Schedule list \<Rightarrow> int \<Rightarrow> date \<Rightarrow> bool" where
  "hasEntry es s d = list_ex (\<lambda>e. staffId e = s \<and> sdate e = d) es"

definition staffOf :: "int \<Rightarrow> StaffWithUser" where
  "staffOf i = \<lparr>sid = i, specialization = None, firstName = ''N'', lastName = ''N''\<rparr>"

definition shiftCatalog :: "ShiftType list" where
  "shiftCatalog =
     [\<lparr>stid = 1, stname = ''Day Shift''\<rparr>, \<lparr>stid = 2, stname = ''Evening Shift''\<rparr>,
      \<lparr>stid = 3, stname = ''Night Shift''\<rparr>]"

definition dutyCatalog :: "DutyType list" where
  "dutyCatalog =
     [\<lparr>dtid = 1, dtname = ''Pre-Duty''\<rparr>, \<lparr>dtid = 2, dtname = ''Duty''\<rparr>,
      \<lparr>dtid = 3, dtname = ''Post-Duty''\<rparr>]"

text \<open>Three staff over the days 10 to 12; staff 2 and 3 are unavailable on day 10.\<close>

definition threeDays :: ScheduleInput where
  "threeDays =
     \<lparr>staff = [staffOf 1, staffOf 2, staffOf 3], shiftTypes = shiftCatalog,
      dutyTypes = dutyCatalog,
      availabilities =
        [\<lparr>avStaffId = 2, avDate = 10, isAvailable = False\<rparr>,
         \<lparr>avStaffId = 3, avDate = 10, isAvailable = False\<rparr>],
      startDate = 10, endDate = 12, unitTag = [], existingSchedules = []\<rparr>"

definition dayLoopInv :: "Schedule list \<Rightarrow> date \<Rightarrow> ScheduleConflict list \<Rightarrow> bool" where
  "dayLoopInv ex date cs =
     (\<forall>i. case firstSeverity cs i date of
             None \<Rightarrow> True
           | Some sv \<Rightarrow> (sv = Error) = hasExisting ex i date)"

definition existingError :: "StaffWithUser \<Rightarrow> date \<Rightarrow> ScheduleConflict" where
  "existingError sm date =
     \<lparr>ctype = EXISTING_ASSIGNMENT, cstaffId = sid sm, cdate = date,
      cmessage = AlreadyHasAssignmentOn date, severity = Error, staffName = fullName sm\<rparr>"

text \<open>The conflicts one iteration of the day loop pushes, as a list.\<close>

definition dayPushed :: "Zone \<Rightarrow> ScheduleInput \<Rightarrow> date \<Rightarrow> StaffWithUser \<Rightarrow> GenState \<Rightarrow> ScheduleConflict list" where
  "dayPushed tz inp date sm st =
     (if hasExisting (existingSchedules inp) (sid sm) date then [existingError sm date] else [])
     @ (if consecutiveShifts (staffLoads st (sid sm)) \<ge> MAX_CONSECUTIVE_SHIFTS
        then [\<lparr>ctype = CONSECUTIVE_SHIFTS, cstaffId = sid sm, cdate = date,
               cmessage = ExceedsMaxConsecutive, severity = Warning, staffName = fullName sm\<rparr>] else [])
     @ (if weeklySchedules st (getWeekKey tz date) (sid sm) \<ge> MAX_SHIFTS_PER_WEEK
        then [\<lparr>ctype = EXCEEDS_WEEKLY_HOURS, cstaffId = sid sm, cdate = date,
               cmessage = ExceedsMaxWeekly, severity = Warning, staffName = fullName sm\<rparr>] else [])"

text \<open>
  The state in which the body of \<^verbatim>\<open>dates.forEach\<close> starts its work on date \<open>d\<close>
  for the first time: the dates listed before the first \<open>d\<close> are done and
  \<^verbatim>\<open>assignedShifts\<close> is the fresh empty object.
\<close>

definition stateBefore_enh :: "Zone \<Rightarrow> ScheduleInput \<Rightarrow> date \<Rightarrow> GenState" where
  "stateBefore_enh tz inp d =
     (fold (processDate_enh tz inp (consts_enh inp) (datesOf tz inp))
        (takeWhile (\<lambda>x. x \<noteq> d) (datesOf tz inp))
        (seedState tz inp (consts_enh inp)))\<lparr>assignedShifts := {}\<rparr>"

definition stateBefore_base :: "Zone \<Rightarrow> ScheduleInput \<Rightarrow> date \<Rightarrow> GenState" where
  "stateBefore_base tz inp d =
     (fold (processDate_base tz inp (consts_base inp))
        (takeWhile (\<lambda>x. x \<noteq> d) (datesOf tz inp))
        (seedState tz inp (consts_base inp)))\<lparr>assignedShifts := {}\<rparr>"

text \<open>
  One date (day 10, a Sunday), two staff. Staff 2 already has an entry on day 10; staff 1 has
  five entries later in the same week, which puts the weekly count at the limit.
\<close>

definition existingAt :: "int \<Rightarrow> date \<Rightarrow> Schedule" where
  "existingAt s d = \<lparr>schedId = Some (s * 100 + d), staffId = s, sdate = d, shiftTypeId = ShiftId 1,
     dutyTypeId = 2, sunit = None\<rparr>"

definition busyDay :: ScheduleInput where
  "busyDay =
     \<lparr>staff = [staffOf 1, staffOf 2], shiftTypes = shiftCatalog, dutyTypes = dutyCatalog,
      availabilities = [],
      startDate = 10, endDate = 10, unitTag = [],
      existingSchedules =
        [existingAt 2 10, existingAt 1 11, existingAt 1 12, existingAt 1 13, existingAt 1 14,
         existingAt 1 15]\<rparr>"

text \<open>Every cell that the store \<open>h\<close> holds is the same in \<open>h'\<close>.\<close>

definition unchanged :: "heap \<Rightarrow> heap \<Rightarrow> bool" where
  "unchanged h h' = (take (length h) h' = h)"

text \<open>
  The list the base detector returns for a candidate found in the roster as
  \<open>staffMember\<close>, when its two loops have counted \<open>consecutive\<close> days.
\<close>

definition conflictsWith_base ::
  "Zone \<Rightarrow> nat \<Rightarrow> Schedule \<Rightarrow> (nat \<times> Schedule) list \<Rightarrow> StaffWithUser \<Rightarrow> Availability list \<Rightarrow>
   ShiftType list \<Rightarrow> nat \<Rightarrow> ScheduleConflict list" where
  "conflictsWith_base tz schedule sch alls staffMember avs sts consecutive =
          (let mk = (\<lambda>t m sv. \<lparr>ctype = t, cstaffId = staffId sch, cdate = sdate sch,
                                cmessage = m, severity = sv, staffName = fullName staffMember\<rparr>);
               prevSchedule = find (\<lambda>rs. staffId (snd rs) = staffId sch
                                         \<and> sdate (snd rs) = addDays tz (- 1) (sdate sch)) alls;
               currentShift = shiftOf sts (shiftTypeId sch);
               prevShift = (case prevSchedule of None \<Rightarrow> None
                            | Some rs \<Rightarrow> shiftOf sts (shiftTypeId (snd rs)))
           in (if list_ex (\<lambda>a. avStaffId a = staffId sch \<and> avDate a = sdate sch
                                 \<and> \<not> isAvailable a) avs
               then [mk UNAVAILABLE_STAFF MarkedUnavailable Error] else [])
            @ (if list_ex (\<lambda>rs. staffId (snd rs) = staffId sch
                                  \<and> sdate (snd rs) = sdate sch \<and> fst rs \<noteq> schedule) alls
               then [mk EXISTING_ASSIGNMENT AlreadyAssignedOnDate Error] else [])
            @ (if map_option stname currentShift = Some ''Night Shift''
                  \<and> map_option stname prevShift = Some ''Day Shift''
               then [mk REST_PERIOD_VIOLATION InsufficientRestDayNight Error] else [])
            @ (if map_option stname currentShift = Some ''Day Shift''
                  \<and> map_option stname prevShift = Some ''Night Shift''
               then [mk REST_PERIOD_VIOLATION InsufficientRestNightDay Error] else [])
            @ (if truthyString (sunit sch) \<noteq> None
                  \<and> truthyString (specialization staffMember) \<noteq> None
                  \<and> sunit sch \<noteq> specialization staffMember
               then [mk SPECIALIZATION_MISMATCH
                       (SpecializationDiffers (stringOf (specialization staffMember))
                          (stringOf (sunit sch))) Warning] else [])
            @ (if consecutive > MAX_CONSECUTIVE_SHIFTS
               then [mk CONSECUTIVE_SHIFTS (NConsecutiveExceeds consecutive) Warning] else []))"

text \<open>
  The list the base detector returns, as a function of what the store holds; \<open>None\<close>
  when the forward loop does not end.
\<close>

definition conflictsOf_base ::
  "Zone \<Rightarrow> nat \<Rightarrow> Schedule \<Rightarrow> (nat \<times> Schedule) list \<Rightarrow> StaffWithUser list \<Rightarrow> Availability list \<Rightarrow>
   ShiftType list \<Rightarrow> ScheduleConflict list option" where
  "conflictsOf_base tz schedule sch alls stf avs sts =
     (case find (\<lambda>s. sid s = staffId sch) stf of
        None \<Rightarrow> Some []
      | Some staffMember \<Rightarrow>
          map_option (conflictsWith_base tz schedule sch alls staffMember avs sts)
            (countForwards tz alls (staffId sch) (addDays tz 1 (sdate sch))
               (countBackwards tz alls (staffId sch) (addDays tz (- 1) (sdate sch)) 1)))"

definition conflictsOf_enh ::
  "Schedule \<Rightarrow> (nat \<times> Schedule) list \<Rightarrow> StaffWithUser list \<Rightarrow> ScheduleConflict list" where
  "conflictsOf_enh sch alls stf =
     (case find (\<lambda>s. sid s = staffId sch) stf of
        None \<Rightarrow> []
      | Some staffMember \<Rightarrow>
          (let mk = (\<lambda>t m sv. \<lparr>ctype = t, cstaffId = staffId sch, cdate = sdate sch,
                                cmessage = m, severity = sv, staffName = fullName staffMember\<rparr>);
               ds = sort (map (sdate \<circ> snd) (filter (\<lambda>rs. staffId (snd rs) = staffId sch) alls))
           in (if find (\<lambda>rs. staffId (snd rs) = staffId sch \<and> sdate (snd rs) = sdate sch
                              \<and> schedId (snd rs) \<noteq> schedId sch) alls \<noteq> None
               then [mk EXISTING_ASSIGNMENT (AlreadyHasAssignmentOn (sdate sch)) Error] else [])
            @ (if ds \<noteq> [] \<and> maxConsecutiveOf ds > MAX_CONSECUTIVE_SHIFTS
               then [mk CONSECUTIVE_SHIFTS ExceedsMaxConsecutive Warning] else [])))"

definition detectArgs :: "heap \<Rightarrow> nat \<Rightarrow> nat \<Rightarrow> nat \<Rightarrow> nat \<Rightarrow> nat \<Rightarrow> bool" where
  "detectArgs h schedule allSchedules staffArr availArr shiftArr =
     (readSched h schedule \<noteq> None \<and> readEntries h allSchedules \<noteq> None
      \<and> readStaff h staffArr \<noteq> None \<and> readAvail h availArr \<noteq> None
      \<and> readShifts h shiftArr \<noteq> None)"

definition repeatable ::
  "(heap \<Rightarrow> nat \<Rightarrow> nat \<Rightarrow> nat \<Rightarrow> nat \<Rightarrow> nat \<Rightarrow> (nat \<times> heap) option) \<Rightarrow>
   heap \<Rightarrow> nat \<Rightarrow> nat \<Rightarrow> nat \<Rightarrow> nat \<Rightarrow> nat \<Rightarrow> bool" where
  "repeatable det h c s f a t =
     (case det h c s f a t of
        None \<Rightarrow> False
      | Some (r1, h1) \<Rightarrow>
          (case det h1 c s f a t of
             None \<Rightarrow> False
           | Some (r2, h2) \<Rightarrow>
               readConflicts h1 r1 \<noteq> None
               \<and> readConflicts h2 r2 = readConflicts h1 r1
               \<and> readConflicts h2 r1 = readConflicts h1 r1
               \<and> unchanged h h1 \<and> unchanged h1 h2))"




definition candidateOf :: "int \<Rightarrow> date \<Rightarrow> Schedule" where
  "candidateOf s d = \<lparr>schedId = None, staffId = s, sdate = d, shiftTypeId = ShiftId 1,
     dutyTypeId = 2, sunit = None\<rparr>"



text \<open>
  A store for the detectors around the start of daylight saving: the candidate (staff 2,
  day 19791, 2024-03-09) at address 0, one stored entry of staff 2 on day 19792
  (2024-03-10) at address 1, the schedule list at 2, the roster at 3, no availability
  records at 4, the catalog at 5.
\<close>

definition springStore :: heap where
  "springStore =
     [SchedObj (candidateOf 2 19791), SchedObj (existingAt 2 19792), RefArr [1],
      StaffArr [staffOf 1, staffOf 2], AvailArr [], ShiftArr shiftCatalog]"

definition noneUnavailable :: "Availability list \<Rightarrow> date \<Rightarrow> StaffWithUser list \<Rightarrow> bool" where
  "noneUnavailable avs date xs = (\<not> list_ex (\<lambda>s. isUnavailable avs (sid s) date) xs)"

text \<open>One staff member over the days 10 and 11, unavailable on day 11.\<close>

definition restDay :: ScheduleInput where
  "restDay =
     \<lparr>staff = [staffOf 1], shiftTypes = shiftCatalog, dutyTypes = dutyCatalog,
      availabilities = [\<lparr>avStaffId = 1, avDate = 11, isAvailable = False\<rparr>],
      startDate = 10, endDate = 11, unitTag = [], existingSchedules = []\<rparr>"

text \<open>A chain of tie-breaks: the first key on which the two differ decides.\<close>

fun lexCompare :: "('a \<Rightarrow> int) list \<Rightarrow> 'a \<Rightarrow> 'a \<Rightarrow> int" where
  "lexCompare [] a b = 0"
| "lexCompare (k # ks) a b = (if k a \<noteq> k b then k a - k b else lexCompare ks a b)"

definition fairnessKeys ::
  "string \<Rightarrow> int list \<Rightarrow> date \<Rightarrow> GenState \<Rightarrow> (StaffWithUser \<Rightarrow> int) list" where
  "fairnessKeys un unavailableStaffIds weekKey st =
     [\<lambda>s. if sid s \<in> set unavailableStaffIds then 1 else 0,
      \<lambda>s. int (totalShifts (staffLoads st (sid s))),
      \<lambda>s. int (weeklySchedules st weekKey (sid s)),
      \<lambda>s. int (duty (staffDutyPatterns st (sid s)) + preDuty (staffDutyPatterns st (sid s))
                + postDuty (staffDutyPatterns st (sid s))),
      \<lambda>s. int (dayShift (staffDutyPatterns st (sid s)) + eveningShift (staffDutyPatterns st (sid s))
                + nightShift (staffDutyPatterns st (sid s))),
      \<lambda>s. int (dayShift (staffDutyPatterns st (sid s))),
      \<lambda>s. int (eveningShift (staffDutyPatterns st (sid s))),
      \<lambda>s. int (nightShift (staffDutyPatterns st (sid s))),
      \<lambda>s. - int (restDays (staffLoads st (sid s))),
      \<lambda>s. if un \<noteq> [] \<and> loadSpecialization (staffLoads st (sid s)) \<noteq> Some un then 1 else 0,
      sid]"

definition tiedKeys :: "string \<Rightarrow> date \<Rightarrow> GenState \<Rightarrow> StaffWithUser \<Rightarrow> StaffWithUser \<Rightarrow> bool" where
  "tiedKeys un weekKey st a b =
     (let aLoad = staffLoads st (sid a); bLoad = staffLoads st (sid b);
          aPattern = staffDutyPatterns st (sid a); bPattern = staffDutyPatterns st (sid b)
      in totalShifts aLoad = totalShifts bLoad
         \<and> weeklySchedules st weekKey (sid a) = weeklySchedules st weekKey (sid b)
         \<and> duty aPattern + preDuty aPattern + postDuty aPattern
             = duty bPattern + preDuty bPattern + postDuty bPattern
         \<and> dayShift aPattern + eveningShift aPattern + nightShift aPattern
             = dayShift bPattern + eveningShift bPattern + nightShift bPattern
         \<and> dayShift aPattern = dayShift bPattern
         \<and> eveningShift aPattern = eveningShift bPattern
         \<and> nightShift aPattern = nightShift bPattern
         \<and> restDays aLoad = restDays bLoad
         \<and> (un = [] \<or> (loadSpecialization aLoad = Some un) = (loadSpecialization bLoad = Some un)))"

definition tiedInPool ::
  "Zone \<Rightarrow> ScheduleInput \<Rightarrow> date \<Rightarrow> GenState \<Rightarrow> StaffWithUser \<Rightarrow> StaffWithUser \<Rightarrow> bool" where
  "tiedInPool tz inp date st a b =
     (a \<in> set (availablePool tz inp date st) \<and> b \<in> set (availablePool tz inp date st)
      \<and> tiedKeys (unitTag inp) (getWeekKey tz date) st a b \<and> sid a < sid b)"

definition lowerIdFirst ::
  "Zone \<Rightarrow> ScheduleInput \<Rightarrow> Consts \<Rightarrow> LoopSpec \<Rightarrow> date \<Rightarrow> GenState \<Rightarrow> StaffWithUser \<Rightarrow> StaffWithUser
   \<Rightarrow> bool" where
  "lowerIdFirst tz inp k sp date st a b =
     (let pool = availablePool tz inp date st;
          new = drop (length (schedules st)) (schedules (snd (snd (dayPhase tz inp k sp date pool st))))
      in fairnessCompare (unitTag inp) (unavailableIds (availabilities inp) date)
           (getWeekKey tz date) st a b < 0
         \<and> a \<in> set (takeWhile (\<lambda>x. x \<noteq> b) pool)
         \<and> (\<not> hasEntry new (sid b) date
             \<or> hasExisting (existingSchedules inp) (sid a) date
             \<or> sid a \<in> set (takeWhile (\<lambda>i. i \<noteq> sid b) (map staffId new))))"

text \<open>
  One date (day 10), two staff with one existing entry each in the week of day 10:
  staff 1 on day 10 itself, staff 2 on day 11.
\<close>

definition tieInput :: ScheduleInput where
  "tieInput =
     \<lparr>staff = [staffOf 1, staffOf 2], shiftTypes = shiftCatalog, dutyTypes = dutyCatalog,
      availabilities = [],
      startDate = 10, endDate = 10, unitTag = [],
      existingSchedules = [existingAt 1 10, existingAt 2 11]\<rparr>"

text \<open>
  An entry carries the shift type of the catalog with a given name; a schedule list holds,
  for one staff id, a Day Shift entry and a Night Shift entry of the next date.
\<close>

definition namedShift :: "ShiftType list \<Rightarrow> Schedule \<Rightarrow> string \<Rightarrow> bool" where
  "namedShift cat e n =
     (case shiftTypeId e of
        ShiftId i \<Rightarrow> list_ex (\<lambda>t. stid t = i \<and> stname t = n) cat
      | _ \<Rightarrow> False)"

definition dayThenNight :: "ShiftType list \<Rightarrow> Schedule list \<Rightarrow> bool" where
  "dayThenNight cat es =
     list_ex (\<lambda>e1. list_ex (\<lambda>e2. staffId e1 = staffId e2 \<and> sdate e2 = sdate e1 + 1
                                  \<and> namedShift cat e1 ''Day Shift''
                                  \<and> namedShift cat e2 ''Night Shift'') es) es"

text \<open>
  Three staff around the end of daylight saving: the range is 2024-11-03 (day 20030, a
  Sunday) to 2024-11-05 (day 20032); staff 2 and 3 are unavailable on 2024-11-03.
\<close>

definition autumnInput :: ScheduleInput where
  "autumnInput =
     \<lparr>staff = [staffOf 1, staffOf 2, staffOf 3], shiftTypes = shiftCatalog,
      dutyTypes = dutyCatalog,
      availabilities =
        [\<lparr>avStaffId = 2, avDate = 20030, isAvailable = False\<rparr>,
         \<lparr>avStaffId = 3, avDate = 20030, isAvailable = False\<rparr>],
      startDate = 20030, endDate = 20032, unitTag = [], existingSchedules = []\<rparr>"

text \<open>
  Three staff at the start of daylight saving: the range is 2024-03-10 (day 19792, a
  Sunday) to 2024-03-11. Staff 1 and 2 have five existing entries each in an earlier
  week; staff 3 has five in the week of 2024-03-10 as New York local time cuts it
  (Monday 2024-03-04 to Sunday 2024-03-10), one of them on 2024-03-10 itself and the
  last listed one, a day shift, on 2024-03-09.
\<close>

definition springInput :: ScheduleInput where
  "springInput =
     \<lparr>staff = [staffOf 1, staffOf 2, staffOf 3], shiftTypes = shiftCatalog,
      dutyTypes = dutyCatalog, availabilities = [],
      startDate = 19792, endDate = 19793, unitTag = [],
      existingSchedules =
        [existingAt 1 19770, existingAt 1 19771, existingAt 1 19772, existingAt 1 19773,
         existingAt 1 19774,
         existingAt 2 19770, existingAt 2 19771, existingAt 2 19772, existingAt 2 19773,
         existingAt 2 19774,
         existingAt 3 19787, existingAt 3 19788, existingAt 3 19789, existingAt 3 19792,
         existingAt 3 19791]\<rparr>"

text \<open>
  The state in which the body of \<^verbatim>\<open>dates.forEach\<close> starts its second pass over
  2024-03-10 on \<open>springInput\<close> in the zone of New York, and what the day loop of that
  pass returns: the counter, the ids of the unvisited rest, the entries it pushed and
  the conflict records of the run so far.
\<close>

definition secondPass_enh :: GenState where
  "secondPass_enh =
     (processDate_enh newYork springInput (consts_enh springInput) (datesOf newYork springInput)
        19792 (seedState newYork springInput (consts_enh springInput)))\<lparr>assignedShifts := {}\<rparr>"

definition secondPass_base :: GenState where
  "secondPass_base =
     (processDate_base newYork springInput (consts_base springInput) 19792
        (seedState newYork springInput (consts_base springInput)))\<lparr>assignedShifts := {}\<rparr>"

definition dayLoopOutcome ::
  "GenState \<Rightarrow> nat \<times> StaffWithUser list \<times> GenState \<Rightarrow>
   nat \<times> int list \<times> (int \<times> date \<times> shiftref \<times> int) list
   \<times> (ConflictType \<times> int \<times> date \<times> Severity) list" where
  "dayLoopOutcome st r =
     (case r of
        (n, rest, st') \<Rightarrow>
          (n, map sid rest,
           map (\<lambda>e. (staffId e, sdate e, shiftTypeId e, dutyTypeId e))
             (drop (length (schedules st)) (schedules st')),
           map (\<lambda>c. (ctype c, cstaffId c, cdate c, severity c)) (conflicts st')))"
section \<open>Properties of the generators\<close>

subsection \<open>What a date adds to the schedule list\<close>

lemma set_insertBy: "set (insertBy cmp x xs) = insert x (set xs)"
  by (induction xs) auto

lemma set_sortBy: "set (sortBy cmp xs) = set xs"
  by (induction xs) (auto simp: sortBy_def set_insertBy)

lemma schedules_pushConflict [simp]: "schedules (pushConflict t m sv sm date st) = schedules st"
  by (simp add: pushConflict_def)

lemma schedules_checkExisting [simp]:
  "schedules (snd (checkExisting ex date sm hs)) = schedules (snd hs)"
  by (simp add: checkExisting_def)

lemma schedules_checkConsecutive [simp]:
  "schedules (snd (checkConsecutive l date sm hs)) = schedules (snd hs)"
  by (simp add: checkConsecutive_def)

lemma schedules_checkWeekly [simp]:
  "schedules (snd (checkWeekly w date sm hs)) = schedules (snd hs)"
  by (simp add: checkWeekly_def)

lemma schedules_recordAssignment:
  "schedules (recordAssignment tz un date sm shift dty night bump mark st) =
     schedules st @ [entryOf un date sm (toRef shift) dty]"
  by (simp add: recordAssignment_def Let_def)

lemma schedules_loopBody:
  "schedules (snd (loopBody tz inp k sp date sm st)) =
     schedules st @
       (if fst (loopBody tz inp k sp date sm st)
        then [entryOf (unitTag inp) date sm (toRef (loopShift sp)) (dutyId k)] else [])"
  by (simp add: loopBody_def Let_def schedules_recordAssignment)

lemma schedules_shiftLoop:
  "e \<in> set (schedules (snd (snd (shiftLoop tz inp k sp date cnt pool a st)))) \<Longrightarrow>
   e \<in> set (schedules st) \<or> (sdate e = date \<and> staffId e \<in> sid ` set pool)"
proof (induction pool arbitrary: a st)
  case Nil
  then show ?case by simp
next
  case (Cons sm rest)
  show ?case
  proof (cases "a < cnt")
    case True
    with Cons.prems have
      "e \<in> set (schedules (snd (snd (shiftLoop tz inp k sp date cnt rest
            (if fst (loopBody tz inp k sp date sm st) then a + 1 else a)
            (snd (loopBody tz inp k sp date sm st))))))"
      by simp
    from Cons.IH[OF this] show ?thesis
      by (auto simp: schedules_loopBody entryOf_def split: if_splits)
  next
    case False
    with Cons.prems show ?thesis by simp
  qed
qed

lemma set_unassignedOf: "set (unassignedOf date st pool) \<subseteq> set pool"
  by (auto simp: unassignedOf_def)

lemma schedules_dutyStep_enh:
  "e \<in> set (schedules (dutyStep_enh tz inp k date dty bump cands st)) \<Longrightarrow>
   e \<in> set (schedules st) \<or> (sdate e = date \<and> staffId e \<in> sid ` set cands)"
  by (cases cands) (auto simp: dutyStep_enh_def schedules_recordAssignment entryOf_def split: if_splits)

lemma schedules_restDuty_fold:
  "e \<in> set (schedules (fold (restDuty_base un date dty bump) xs st)) \<Longrightarrow>
   e \<in> set (schedules st) \<or> (sdate e = date \<and> staffId e \<in> sid ` set xs)"
proof (induction xs arbitrary: st)
  case Nil
  then show ?case by simp
next
  case (Cons x xs)
  from Cons.IH[of "restDuty_base un date dty bump x st"] Cons.prems
  show ?case by (auto simp: restDuty_base_def Let_def entryOf_def)
qed

lemma schedules_restUnassigned_fold [simp]:
  "schedules (fold (restUnassigned_base date) xs st) = schedules st"
  by (induction xs arbitrary: st) (auto simp: restUnassigned_base_def Let_def)

lemma schedules_seed_fold [simp]:
  "schedules (fold (seedExisting tz stf k) xs st) = schedules st"
  by (induction xs arbitrary: st) (auto simp: seedExisting_def Let_def)

lemma availablePool_ids:
  "s \<in> set (availablePool tz inp date st) \<Longrightarrow> sid s \<notin> set (unavailableIds (availabilities inp) date)"
  by (simp add: availablePool_def Let_def set_sortBy)

lemma schedules_processDate_enh:
  assumes "e \<in> set (schedules (processDate_enh tz inp k dates date st))"
  shows "e \<in> set (schedules st) \<or>
         (sdate e = date \<and> staffId e \<notin> set (unavailableIds (availabilities inp) date))"
proof -
  define st0 where "st0 = st\<lparr>assignedShifts := {}\<rparr>"
  define av where "av = availablePool tz inp date st0"
  define st1 where "st1 = snd (snd (dayPhase tz inp k (daySpec_enh k) date av st0))"
  define st2 where "st2 = snd (snd (eveningPhase_enh tz inp k date av st1))"
  define st3 where "st3 = snd (snd (nightPhase_enh tz inp k date av st2))"
  define st4 where "st4 = preDutyPhase_enh tz inp k dates date av st3"
  have fin: "processDate_enh tz inp k dates date st = postDutyPhase_enh tz inp k dates date av st4"
    by (simp add: processDate_enh_def Let_def st0_def av_def st1_def st2_def st3_def st4_def)
  let ?new = "\<lambda>e. sdate e = date \<and> staffId e \<in> sid ` set av"
  have s1: "\<And>e. e \<in> set (schedules st1) \<Longrightarrow> e \<in> set (schedules st) \<or> ?new e"
    using schedules_shiftLoop[of _ tz inp k "daySpec_enh k" date _ av 0 st0]
    by (auto simp: st1_def dayPhase_def st0_def)
  have s2: "\<And>e. e \<in> set (schedules st2) \<Longrightarrow> e \<in> set (schedules st1) \<or> ?new e"
    unfolding st2_def eveningPhase_enh_def Let_def
    using set_unassignedOf[of date st1 av]
    by (auto dest!: schedules_shiftLoop simp: set_sortBy)
  have s3: "\<And>e. e \<in> set (schedules st3) \<Longrightarrow> e \<in> set (schedules st2) \<or> ?new e"
    unfolding st3_def nightPhase_enh_def Let_def
    using set_unassignedOf[of date st2 av]
    by (auto dest!: schedules_shiftLoop simp: set_sortBy)
  have s4: "\<And>e. e \<in> set (schedules st4) \<Longrightarrow> e \<in> set (schedules st3) \<or> ?new e"
    unfolding st4_def preDutyPhase_enh_def
    using set_unassignedOf[of date st3 av]
    by (auto dest!: schedules_dutyStep_enh simp: set_sortBy split: if_splits)
  have s5: "\<And>e. e \<in> set (schedules (postDutyPhase_enh tz inp k dates date av st4))
              \<Longrightarrow> e \<in> set (schedules st4) \<or> ?new e"
    unfolding postDutyPhase_enh_def
    using set_unassignedOf[of date st4 av]
    by (auto dest!: schedules_dutyStep_enh simp: set_sortBy split: if_splits)
  from assms fin s1 s2 s3 s4 s5 have "e \<in> set (schedules st) \<or> ?new e"
    by metis
  then show ?thesis
    using availablePool_ids[of _ tz inp date st0] by (auto simp: av_def)
qed

lemma schedules_processDate_base:
  assumes "e \<in> set (schedules (processDate_base tz inp k date st))"
  shows "e \<in> set (schedules st) \<or>
         (sdate e = date \<and> staffId e \<notin> set (unavailableIds (availabilities inp) date))"
proof -
  define st0 where "st0 = st\<lparr>assignedShifts := {}\<rparr>"
  define av where "av = availablePool tz inp date st0"
  define st1 where "st1 = snd (snd (dayPhase tz inp k (daySpec_base k) date av st0))"
  define st2 where "st2 = snd (snd (eveningPhase_base tz inp k date av st1))"
  define st3 where "st3 = snd (snd (nightPhase_base tz inp k date av st2))"
  define st4 where "st4 = dutyPhase_base inp k date av st3"
  have fin: "schedules (processDate_base tz inp k date st) = schedules st4"
    by (simp add: processDate_base_def Let_def st0_def av_def st1_def st2_def st3_def st4_def)
  let ?new = "\<lambda>e. sdate e = date \<and> staffId e \<in> sid ` set av"
  have s1: "\<And>e. e \<in> set (schedules st1) \<Longrightarrow> e \<in> set (schedules st) \<or> ?new e"
    using schedules_shiftLoop[of _ tz inp k "daySpec_base k" date _ av 0 st0]
    by (auto simp: st1_def dayPhase_def st0_def)
  have s2: "\<And>e. e \<in> set (schedules st2) \<Longrightarrow> e \<in> set (schedules st1) \<or> ?new e"
    unfolding st2_def eveningPhase_base_def Let_def
    using set_unassignedOf[of date st1 av]
    by (auto dest!: schedules_shiftLoop)
  have s3: "\<And>e. e \<in> set (schedules st3) \<Longrightarrow> e \<in> set (schedules st2) \<or> ?new e"
    unfolding st3_def nightPhase_base_def Let_def
    using set_unassignedOf[of date st2 av]
    by (auto dest!: schedules_shiftLoop simp: set_sortBy)
  have s4: "e \<in> set (schedules st3) \<or> ?new e" if e: "e \<in> set (schedules st4)" for e
  proof -
    define us where "us = sortBy (\<lambda>a b. int (preDuty (staffDutyPatterns st3 (sid a)))
                          - int (preDuty (staffDutyPatterns st3 (sid b))))
              (unassignedOf date st3 av)"
    define pre where "pre = take (length us div 2) us"
    define stp where "stp = fold (restDuty_base (unitTag inp) date (preDutyId k)
                        (\<lambda>p. p\<lparr>preDuty := preDuty p + 1\<rparr>)) pre st3"
    have us: "set us \<subseteq> set av"
      using set_unassignedOf[of date st3 av] by (simp add: us_def set_sortBy)
    have pre: "set pre \<subseteq> set av"
      using us set_take_subset[of "length us div 2" us] by (auto simp: pre_def)
    have post: "set (unassignedOf date stp us) \<subseteq> set av"
      using us set_unassignedOf[of date stp us] by auto
    have "st4 = fold (restDuty_base (unitTag inp) date (postDutyId k)
                 (\<lambda>p. p\<lparr>postDuty := postDuty p + 1\<rparr>)) (unassignedOf date stp us) stp"
      by (simp add: st4_def dutyPhase_base_def Let_def us_def pre_def stp_def)
    with e have "e \<in> set (schedules stp) \<or> (sdate e = date \<and> staffId e \<in> sid ` set (unassignedOf date stp us))"
      using schedules_restDuty_fold by metis
    moreover have "e \<in> set (schedules stp) \<Longrightarrow> e \<in> set (schedules st3) \<or> (sdate e = date \<and> staffId e \<in> sid ` set pre)"
      unfolding stp_def using schedules_restDuty_fold by metis
    ultimately show ?thesis using pre post by auto
  qed
  from assms fin s1 s2 s3 s4 have "e \<in> set (schedules st) \<or> ?new e"
    by metis
  then show ?thesis
    using availablePool_ids[of _ tz inp date st0] by (auto simp: av_def)
qed

lemma isUnavailable_ids: "isUnavailable avs s d \<longleftrightarrow> s \<in> set (unavailableIds avs d)"
  by (auto simp: isUnavailable_def unavailableIds_def list_ex_iff)

lemma schedules_fold_enh:
  "e \<in> set (schedules (fold (processDate_enh tz inp k dates) ds st)) \<Longrightarrow>
   e \<in> set (schedules st) \<or> staffId e \<notin> set (unavailableIds (availabilities inp) (sdate e))"
proof (induction ds arbitrary: st)
  case Nil
  then show ?case by simp
next
  case (Cons d ds)
  from Cons.IH[of "processDate_enh tz inp k dates d st"] Cons.prems
  show ?case using schedules_processDate_enh[of e tz inp k dates d st] by auto
qed

lemma schedules_fold_base:
  "e \<in> set (schedules (fold (processDate_base tz inp k) ds st)) \<Longrightarrow>
   e \<in> set (schedules st) \<or> staffId e \<notin> set (unavailableIds (availabilities inp) (sdate e))"
proof (induction ds arbitrary: st)
  case Nil
  then show ?case by simp
next
  case (Cons d ds)
  from Cons.IH[of "processDate_base tz inp k d st"] Cons.prems
  show ?case using schedules_processDate_base[of e tz inp k d st] by auto
qed

lemma schedules_initState [simp]: "schedules (initState stf) = []"
  by (simp add: initState_def)

subsection \<open>The day loop and the first conflict of a candidate\<close>

lemma find_append2:
  "find P (xs @ ys) = (case find P xs of None \<Rightarrow> find P ys | Some x \<Rightarrow> Some x)"
  by (induction xs) auto

lemma firstSeverity_append:
  "firstSeverity (cs @ ds) i date =
     (case firstSeverity cs i date of None \<Rightarrow> firstSeverity ds i date | Some sv \<Rightarrow> Some sv)"
  by (simp add: firstSeverity_def find_append2 split: option.splits)

lemma firstSeverity_single:
  "firstSeverity [c] i date = (if cstaffId c = i \<and> cdate c = date then Some (severity c) else None)"
  by (simp add: firstSeverity_def)

lemma conflicts_pushConflict:
  "conflicts (pushConflict t m sv sm date st) =
     conflicts st @ [\<lparr>ctype = t, cstaffId = sid sm, cdate = date, cmessage = m, severity = sv,
                      staffName = fullName sm\<rparr>]"
  by (simp add: pushConflict_def)

lemma conflicts_recordAssignment [simp]:
  "conflicts (recordAssignment tz un date sm shift dty night bump mark st) = conflicts st"
  by (simp add: recordAssignment_def Let_def)

lemma Severity_not_Error: "sv \<noteq> Error \<longleftrightarrow> sv = Warning"
  by (cases sv) auto

lemma dayChecks:
  "conflicts (snd (checkWeekly w date sm (checkConsecutive l date sm (checkExisting ex date sm (False, st))))) =
     conflicts st
     @ (if hasExisting ex (sid sm) date then [existingError sm date] else [])
     @ (if consecutiveShifts l \<ge> MAX_CONSECUTIVE_SHIFTS
        then [\<lparr>ctype = CONSECUTIVE_SHIFTS, cstaffId = sid sm, cdate = date,
               cmessage = ExceedsMaxConsecutive, severity = Warning, staffName = fullName sm\<rparr>] else [])
     @ (if w \<ge> MAX_SHIFTS_PER_WEEK
        then [\<lparr>ctype = EXCEEDS_WEEKLY_HOURS, cstaffId = sid sm, cdate = date,
               cmessage = ExceedsMaxWeekly, severity = Warning, staffName = fullName sm\<rparr>] else [])"
  by (simp add: checkWeekly_def checkConsecutive_def checkExisting_def conflicts_pushConflict existingError_def)

lemma dayChecks_flag:
  "fst (checkWeekly w date sm (checkConsecutive l date sm (checkExisting ex date sm (False, st)))) =
     (hasExisting ex (sid sm) date \<or> consecutiveShifts l \<ge> MAX_CONSECUTIVE_SHIFTS \<or> w \<ge> MAX_SHIFTS_PER_WEEK)"
  by (simp add: checkWeekly_def checkConsecutive_def checkExisting_def)

lemma dayBody_conflicts:
  assumes "dupCheck sp" "restCheck sp = NoRestRule"
  shows "conflicts (snd (loopBody tz inp k sp date sm st)) = conflicts st @ dayPushed tz inp date sm st"
  using assms
  by (simp add: loopBody_def Let_def dayChecks dayPushed_def)

lemma firstSeverity_dayPushed:
  "firstSeverity (dayPushed tz inp date sm st) i date' =
     (if i = sid sm \<and> date' = date then
        (if hasExisting (existingSchedules inp) (sid sm) date then Some Error
         else if consecutiveShifts (staffLoads st (sid sm)) \<ge> MAX_CONSECUTIVE_SHIFTS
                 \<or> weeklySchedules st (getWeekKey tz date) (sid sm) \<ge> MAX_SHIFTS_PER_WEEK
         then Some Warning else None)
      else None)"
  by (simp add: dayPushed_def firstSeverity_def existingError_def)

lemma dayBody_fst:
  assumes "dupCheck sp" "restCheck sp = NoRestRule"
    and inv: "dayLoopInv (existingSchedules inp) date (conflicts st)"
  shows "fst (loopBody tz inp k sp date sm st) = (\<not> hasExisting (existingSchedules inp) (sid sm) date)"
proof -
  let ?hs = "checkWeekly (weeklySchedules st (getWeekKey tz date) (sid sm)) date sm
              (checkConsecutive (staffLoads st (sid sm)) date sm
                (checkExisting (existingSchedules inp) date sm (False, st)))"
  have body: "fst (loopBody tz inp k sp date sm st) = mayAssign ?hs sm date"
    using assms(1,2) by (simp add: loopBody_def Let_def)
  have cs: "conflicts (snd ?hs) = conflicts st @ dayPushed tz inp date sm st"
    by (simp add: dayChecks dayPushed_def)
  from inv have i: "case firstSeverity (conflicts st) (sid sm) date of
             None \<Rightarrow> True
           | Some sv \<Rightarrow> (sv = Error) = hasExisting (existingSchedules inp) (sid sm) date"
    by (simp add: dayLoopInv_def)
  show ?thesis
  proof (cases "hasExisting (existingSchedules inp) (sid sm) date")
    case True
    then have "firstSeverity (conflicts (snd ?hs)) (sid sm) date = Some Error"
      using i by (auto simp: cs firstSeverity_append firstSeverity_dayPushed split: option.splits)
    moreover have "fst ?hs" using True by (simp add: dayChecks_flag)
    ultimately show ?thesis using True by (simp add: body mayAssign_def)
  next
    case False
    have "fst ?hs \<Longrightarrow> firstSeverity (conflicts (snd ?hs)) (sid sm) date = Some Warning"
      using i False
      by (auto simp: cs firstSeverity_append firstSeverity_dayPushed dayChecks_flag Severity_not_Error
               split: option.splits)
    then show ?thesis using False by (auto simp: body mayAssign_def)
  qed
qed

lemma dayBody_inv:
  assumes "dupCheck sp" "restCheck sp = NoRestRule"
    and inv: "dayLoopInv (existingSchedules inp) date (conflicts st)"
  shows "dayLoopInv (existingSchedules inp) date (conflicts (snd (loopBody tz inp k sp date sm st)))"
  unfolding dayLoopInv_def
proof
  fix i
  from inv have i: "case firstSeverity (conflicts st) i date of
             None \<Rightarrow> True
           | Some sv \<Rightarrow> (sv = Error) = hasExisting (existingSchedules inp) i date"
    by (simp add: dayLoopInv_def)
  then show "case firstSeverity (conflicts (snd (loopBody tz inp k sp date sm st))) i date of
             None \<Rightarrow> True
           | Some sv \<Rightarrow> (sv = Error) = hasExisting (existingSchedules inp) i date"
    by (auto simp: dayBody_conflicts[OF assms(1,2)] firstSeverity_append firstSeverity_dayPushed
             split: option.splits)
qed

subsection \<open>Conflict records carry the date that pushed them\<close>

lemma conflicts_loopBody:
  "c \<in> set (conflicts (snd (loopBody tz inp k sp date sm st))) \<Longrightarrow>
   c \<in> set (conflicts st) \<or> cdate c = date"
  by (auto simp: loopBody_def Let_def checkWeekly_def checkConsecutive_def checkExisting_def
        conflicts_pushConflict split: if_splits)

lemma conflicts_shiftLoop:
  "c \<in> set (conflicts (snd (snd (shiftLoop tz inp k sp date cnt pool a st)))) \<Longrightarrow>
   c \<in> set (conflicts st) \<or> cdate c = date"
proof (induction pool arbitrary: a st)
  case Nil
  then show ?case by simp
next
  case (Cons sm rest)
  show ?case
  proof (cases "a < cnt")
    case True
    with Cons.prems have
      "c \<in> set (conflicts (snd (snd (shiftLoop tz inp k sp date cnt rest
            (if fst (loopBody tz inp k sp date sm st) then a + 1 else a)
            (snd (loopBody tz inp k sp date sm st))))))"
      by simp
    from Cons.IH[OF this] show ?thesis
      using conflicts_loopBody[of c tz inp k sp date sm st] by auto
  next
    case False
    with Cons.prems show ?thesis by simp
  qed
qed

lemma conflicts_dutyStep_enh:
  "c \<in> set (conflicts (dutyStep_enh tz inp k date dty bump cands st)) \<Longrightarrow>
   c \<in> set (conflicts st) \<or> cdate c = date"
  by (cases cands) (auto simp: dutyStep_enh_def conflicts_pushConflict split: if_splits)

lemma conflicts_restDuty_fold [simp]:
  "conflicts (fold (restDuty_base un date dty bump) xs st) = conflicts st"
  by (induction xs arbitrary: st) (auto simp: restDuty_base_def Let_def)

lemma conflicts_restUnassigned_fold [simp]:
  "conflicts (fold (restUnassigned_base date) xs st) = conflicts st"
  by (induction xs arbitrary: st) (auto simp: restUnassigned_base_def Let_def)

lemma conflicts_seed_fold [simp]:
  "conflicts (fold (seedExisting tz stf k) xs st) = conflicts st"
  by (induction xs arbitrary: st) (auto simp: seedExisting_def Let_def)

lemma conflicts_seedState [simp]: "conflicts (seedState tz inp k) = []"
  by (simp add: seedState_def initState_def)

lemma conflicts_processDate_enh:
  assumes "c \<in> set (conflicts (processDate_enh tz inp k dates date st))"
  shows "c \<in> set (conflicts st) \<or> cdate c = date"
proof -
  define st0 where "st0 = st\<lparr>assignedShifts := {}\<rparr>"
  define av where "av = availablePool tz inp date st0"
  define st1 where "st1 = snd (snd (dayPhase tz inp k (daySpec_enh k) date av st0))"
  define st2 where "st2 = snd (snd (eveningPhase_enh tz inp k date av st1))"
  define st3 where "st3 = snd (snd (nightPhase_enh tz inp k date av st2))"
  define st4 where "st4 = preDutyPhase_enh tz inp k dates date av st3"
  have fin: "processDate_enh tz inp k dates date st = postDutyPhase_enh tz inp k dates date av st4"
    by (simp add: processDate_enh_def Let_def st0_def av_def st1_def st2_def st3_def st4_def)
  have s1: "\<And>c. c \<in> set (conflicts st1) \<Longrightarrow> c \<in> set (conflicts st) \<or> cdate c = date"
    using conflicts_shiftLoop[of _ tz inp k "daySpec_enh k" date _ av 0 st0]
    by (auto simp: st1_def dayPhase_def st0_def)
  have s2: "\<And>c. c \<in> set (conflicts st2) \<Longrightarrow> c \<in> set (conflicts st1) \<or> cdate c = date"
    unfolding st2_def eveningPhase_enh_def Let_def by (auto dest!: conflicts_shiftLoop)
  have s3: "\<And>c. c \<in> set (conflicts st3) \<Longrightarrow> c \<in> set (conflicts st2) \<or> cdate c = date"
    unfolding st3_def nightPhase_enh_def Let_def by (auto dest!: conflicts_shiftLoop)
  have s4: "\<And>c. c \<in> set (conflicts st4) \<Longrightarrow> c \<in> set (conflicts st3) \<or> cdate c = date"
    unfolding st4_def preDutyPhase_enh_def
    by (auto dest!: conflicts_dutyStep_enh split: if_splits)
  have s5: "\<And>c. c \<in> set (conflicts (postDutyPhase_enh tz inp k dates date av st4))
              \<Longrightarrow> c \<in> set (conflicts st4) \<or> cdate c = date"
    unfolding postDutyPhase_enh_def
    by (auto dest!: conflicts_dutyStep_enh split: if_splits)
  from assms fin s1 s2 s3 s4 s5 show ?thesis by metis
qed

lemma conflicts_processDate_base:
  assumes "c \<in> set (conflicts (processDate_base tz inp k date st))"
  shows "c \<in> set (conflicts st) \<or> cdate c = date"
proof -
  define st0 where "st0 = st\<lparr>assignedShifts := {}\<rparr>"
  define av where "av = availablePool tz inp date st0"
  define st1 where "st1 = snd (snd (dayPhase tz inp k (daySpec_base k) date av st0))"
  define st2 where "st2 = snd (snd (eveningPhase_base tz inp k date av st1))"
  define st3 where "st3 = snd (snd (nightPhase_base tz inp k date av st2))"
  have fin: "conflicts (processDate_base tz inp k date st) = conflicts st3"
    by (simp add: processDate_base_def Let_def st0_def av_def st1_def st2_def st3_def
          dutyPhase_base_def)
  have s1: "\<And>c. c \<in> set (conflicts st1) \<Longrightarrow> c \<in> set (conflicts st) \<or> cdate c = date"
    using conflicts_shiftLoop[of _ tz inp k "daySpec_base k" date _ av 0 st0]
    by (auto simp: st1_def dayPhase_def st0_def)
  have s2: "\<And>c. c \<in> set (conflicts st2) \<Longrightarrow> c \<in> set (conflicts st1) \<or> cdate c = date"
    unfolding st2_def eveningPhase_base_def Let_def by (auto dest!: conflicts_shiftLoop)
  have s3: "\<And>c. c \<in> set (conflicts st3) \<Longrightarrow> c \<in> set (conflicts st2) \<or> cdate c = date"
    unfolding st3_def nightPhase_base_def Let_def by (auto dest!: conflicts_shiftLoop)
  from assms fin s1 s2 s3 show ?thesis by metis
qed

lemma conflicts_fold_enh:
  "c \<in> set (conflicts (fold (processDate_enh tz inp k dates) ds st)) \<Longrightarrow>
   c \<in> set (conflicts st) \<or> cdate c \<in> set ds"
proof (induction ds arbitrary: st)
  case Nil
  then show ?case by simp
next
  case (Cons d ds)
  from Cons.IH[of "processDate_enh tz inp k dates d st"] Cons.prems
  show ?case using conflicts_processDate_enh[of c tz inp k dates d st] by auto
qed

lemma conflicts_fold_base:
  "c \<in> set (conflicts (fold (processDate_base tz inp k) ds st)) \<Longrightarrow>
   c \<in> set (conflicts st) \<or> cdate c \<in> set ds"
proof (induction ds arbitrary: st)
  case Nil
  then show ?case by simp
next
  case (Cons d ds)
  from Cons.IH[of "processDate_base tz inp k d st"] Cons.prems
  show ?case using conflicts_processDate_base[of c tz inp k d st] by auto
qed

lemma dayLoopInv_fresh:
  assumes "\<And>c. c \<in> set cs \<Longrightarrow> cdate c \<noteq> date"
  shows "dayLoopInv ex date cs"
proof -
  have "find (\<lambda>c. cstaffId c = i \<and> cdate c = date) cs = None" for i
    using assms by (auto simp: find_None_iff)
  then show ?thesis by (simp add: dayLoopInv_def firstSeverity_def)
qed

lemma dayLoopInv_stateBefore_enh:
  "dayLoopInv ex d (conflicts (stateBefore_enh tz inp d))"
proof (rule dayLoopInv_fresh)
  fix c assume "c \<in> set (conflicts (stateBefore_enh tz inp d))"
  then have "cdate c \<in> set (takeWhile (\<lambda>x. x \<noteq> d) (datesOf tz inp))"
    by (auto simp: stateBefore_enh_def dest!: conflicts_fold_enh)
  then show "cdate c \<noteq> d" by (auto dest: set_takeWhileD)
qed

lemma dayLoopInv_stateBefore_base:
  "dayLoopInv ex d (conflicts (stateBefore_base tz inp d))"
proof (rule dayLoopInv_fresh)
  fix c assume "c \<in> set (conflicts (stateBefore_base tz inp d))"
  then have "cdate c \<in> set (takeWhile (\<lambda>x. x \<noteq> d) (datesOf tz inp))"
    by (auto simp: stateBefore_base_def dest!: conflicts_fold_base)
  then show "cdate c \<noteq> d" by (auto dest: set_takeWhileD)
qed

lemma conflicts_loopBody_mono:
  "set (conflicts st) \<subseteq> set (conflicts (snd (loopBody tz inp k sp date sm st)))"
  by (auto simp: loopBody_def Let_def checkWeekly_def checkConsecutive_def checkExisting_def
        conflicts_pushConflict)

lemma dayLoop_walk:
  assumes sp: "dupCheck sp" "restCheck sp = NoRestRule"
  shows "dayLoopInv (existingSchedules inp) date (conflicts st) \<Longrightarrow>
     shiftLoop tz inp k sp date cnt pool a st = (n, rest, st') \<Longrightarrow>
     (\<exists>visited. pool = visited @ rest
        \<and> schedules st' = schedules st @
             map (\<lambda>sm. entryOf (unitTag inp) date sm (toRef (loopShift sp)) (dutyId k))
               (filter (\<lambda>sm. \<not> hasExisting (existingSchedules inp) (sid sm) date) visited)
        \<and> n = a + length (filter (\<lambda>sm. \<not> hasExisting (existingSchedules inp) (sid sm) date) visited)
        \<and> (\<forall>sm \<in> set visited. hasExisting (existingSchedules inp) (sid sm) date \<longrightarrow>
               existingError sm date \<in> set (conflicts st'))
        \<and> set (conflicts st) \<subseteq> set (conflicts st'))"
proof (induction pool arbitrary: a st)
  case Nil
  then show ?case by simp
next
  case (Cons sm pool)
  let ?ex = "\<lambda>sm. hasExisting (existingSchedules inp) (sid sm) date"
  let ?en = "\<lambda>sm. entryOf (unitTag inp) date sm (toRef (loopShift sp)) (dutyId k)"
  show ?case
  proof (cases "a < cnt")
    case False
    with Cons.prems(2) have "n = a" "rest = sm # pool" "st' = st" by auto
    then show ?thesis by (intro exI[of _ "[]"]) simp
  next
    case True
    let ?b = "loopBody tz inp k sp date sm st"
    have fst_b: "fst ?b = (\<not> ?ex sm)"
      using dayBody_fst[OF sp Cons.prems(1)] .
    have inv': "dayLoopInv (existingSchedules inp) date (conflicts (snd ?b))"
      using dayBody_inv[OF sp Cons.prems(1)] .
    from True Cons.prems(2) have
      run: "shiftLoop tz inp k sp date cnt pool (if fst ?b then a + 1 else a) (snd ?b) = (n, rest, st')"
      by simp
    from Cons.IH[OF inv' run] obtain visited where v:
      "pool = visited @ rest"
      "schedules st' = schedules (snd ?b) @ map ?en (filter (\<lambda>sm. \<not> ?ex sm) visited)"
      "n = (if fst ?b then a + 1 else a) + length (filter (\<lambda>sm. \<not> ?ex sm) visited)"
      "\<forall>sm \<in> set visited. ?ex sm \<longrightarrow> existingError sm date \<in> set (conflicts st')"
      "set (conflicts (snd ?b)) \<subseteq> set (conflicts st')"
      by blast
    have err: "?ex sm \<Longrightarrow> existingError sm date \<in> set (conflicts (snd ?b))"
      by (simp add: dayBody_conflicts[OF sp] dayPushed_def)
    have mono: "set (conflicts st) \<subseteq> set (conflicts (snd ?b))"
      by (rule conflicts_loopBody_mono)
    show ?thesis
    proof (intro exI[of _ "sm # visited"] conjI)
      show "sm # pool = (sm # visited) @ rest" using v(1) by simp
      show "schedules st' = schedules st @ map ?en (filter (\<lambda>sm. \<not> ?ex sm) (sm # visited))"
        using v(2) fst_b by (simp add: schedules_loopBody)
      show "n = a + length (filter (\<lambda>sm. \<not> ?ex sm) (sm # visited))"
        using v(3) fst_b by simp
      show "\<forall>x \<in> set (sm # visited). ?ex x \<longrightarrow> existingError x date \<in> set (conflicts st')"
        using v(4,5) err by auto
      show "set (conflicts st) \<subseteq> set (conflicts st')"
        using mono v(5) by blast
    qed
  qed
qed
subsection \<open>One local day on, one local day back\<close>

lemma setDateBy_bounds:
  "t + n * msPerDay - msPerHour \<le> setDateBy tz n t \<and> setDateBy tz n t \<le> t + n * msPerDay + msPerHour"
  by (auto simp: setDateBy_def utcTime_def localTime_def msPerHour_def)

lemma toISODate_between:
  assumes "d * msPerDay \<le> t" "t < (d + 1) * msPerDay"
  shows "toISODate t = d"
  using assms unfolding msPerDay_def toISODate_def by simp


lemma addDays_previous: "addDays tz (- 1) d = d - 1 \<or> addDays tz (- 1) d = d - 2"
proof -
  let ?t = "setDateBy tz (- 1) (newDate d)"
  from setDateBy_bounds[of "newDate d" "- 1" tz]
  have b: "d * msPerDay - msPerDay - msPerHour \<le> ?t" "?t \<le> d * msPerDay - msPerDay + msPerHour"
    by (simp_all add: newDate_def)
  show ?thesis
  proof (cases "?t < (d - 1) * msPerDay")
    case True
    have "toISODate ?t = d - 2"
      using b True by (intro toISODate_between) (simp_all add: msPerDay_def msPerHour_def)
    then show ?thesis by (simp add: addDays_def)
  next
    case False
    have "toISODate ?t = d - 1"
      using b False by (intro toISODate_between) (simp_all add: msPerDay_def msPerHour_def)
    then show ?thesis by (simp add: addDays_def)
  qed
qed

subsection \<open>When the forward loop of the base detector ends\<close>

lemma countForwards_stall:
  assumes "countForwards tz alls i d n = Some r"
  shows "\<not> (worksOn alls i d \<and> addDays tz 1 d = d)"
  by (rule countForwards.raw_induct[where P = "\<lambda>tz alls i d n r. \<not> (worksOn alls i d \<and> addDays tz 1 d = d)",
        OF _ assms])
     (auto split: if_splits)



subsection \<open>What the detectors return and what they leave alone\<close>

lemma pushWhen_at:
  "pushWhen b (h @ ConflictArr cs # xs) (length h) c =
     h @ ConflictArr (cs @ (if b then [c] else [])) # xs"
  by (simp add: pushWhen_def pushH_def cellAt_def)

lemma detect_base_result:
  assumes "readSched h schedule = Some sch" "readEntries h allSchedules = Some alls"
    "readStaff h staffArr = Some stf" "readAvail h availArr = Some avs"
    "readShifts h shiftArr = Some sts"
  shows "detectScheduleConflicts_base tz h schedule allSchedules staffArr availArr shiftArr =
           map_option (\<lambda>cs. (length h, h @ [ConflictArr cs]))
             (conflictsOf_base tz schedule sch alls stf avs sts)"
proof (cases "find (\<lambda>s. sid s = staffId sch) stf")
  case None
  then show ?thesis
    using assms by (simp add: detectScheduleConflicts_base_def conflictsOf_base_def alloc_def)
next
  case (Some staffMember)
  show ?thesis
  proof (cases "countForwards tz alls (staffId sch) (addDays tz 1 (sdate sch))
                  (countBackwards tz alls (staffId sch) (addDays tz (- 1) (sdate sch)) 1)")
    case None
    then show ?thesis
      unfolding detectScheduleConflicts_base_def conflictsOf_base_def alloc_def Let_def
      using assms Some by simp
  next
    case (Some consecutive)
    then show ?thesis
      unfolding detectScheduleConflicts_base_def conflictsOf_base_def conflictsWith_base_def
        alloc_def Let_def
      using assms \<open>find (\<lambda>s. sid s = staffId sch) stf = Some staffMember\<close>
      by (simp add: pushWhen_at)
  qed
qed

lemma sortH_at:
  "sortH (h @ DateArr ds # xs) (length h) = h @ DateArr (sort ds) # xs"
  by (simp add: sortH_def cellAt_def)

lemma readDates_at: "readDates (h @ DateArr ds # xs) (length h) = ds"
  by (simp add: readDates_def cellAt_def)

lemma detect_enh_result:
  assumes "readSched h schedule = Some sch" "readEntries h schedulesArr = Some alls"
    "readStaff h staffList = Some stf" "readShifts h shiftArr = Some sts"
  shows "\<exists>xs. detectScheduleConflicts_enh tz h schedule schedulesArr staffList availArr shiftArr =
           Some (length h, h @ ConflictArr (conflictsOf_enh sch alls stf) # xs)"
proof (cases "find (\<lambda>s. sid s = staffId sch) stf")
  case None
  then show ?thesis
    using assms by (simp add: detectScheduleConflicts_enh_def conflictsOf_enh_def alloc_def)
next
  case (Some staffMember)
  have s: "sortH (h @ [c1, c2, DateArr ds]) (Suc (Suc (length h))) = h @ [c1, c2, DateArr (sort ds)]"
    for c1 c2 ds
    using sortH_at[of "h @ [c1, c2]" ds "[]"] by simp
  have r: "readDates (h @ [c1, c2, DateArr ds]) (Suc (Suc (length h))) = ds" for c1 c2 ds
    using readDates_at[of "h @ [c1, c2]" ds "[]"] by simp
  show ?thesis
    unfolding detectScheduleConflicts_enh_def conflictsOf_enh_def alloc_def Let_def
    using assms Some
    by (simp add: pushWhen_at s r)
qed

lemma cellAt_append: "cellAt h a = Some c \<Longrightarrow> cellAt (h @ xs) a = Some c"
  by (auto simp: cellAt_def nth_append split: if_splits)

lemma readSched_append: "readSched h a = Some s \<Longrightarrow> readSched (h @ xs) a = Some s"
  by (auto simp: readSched_def split: option.splits cell.splits dest: cellAt_append[where xs = xs])

lemma readRefs_append: "readRefs h rs = Some ys \<Longrightarrow> readRefs (h @ xs) rs = Some ys"
  by (induction rs arbitrary: ys) (auto split: option.splits dest: readSched_append[where xs = xs])

lemma readEntries_append: "readEntries h a = Some ys \<Longrightarrow> readEntries (h @ xs) a = Some ys"
  by (auto simp: readEntries_def readRefs_append split: option.splits cell.splits
        dest: cellAt_append[where xs = xs])

lemma readStaff_append: "readStaff h a = Some ys \<Longrightarrow> readStaff (h @ xs) a = Some ys"
  by (auto simp: readStaff_def split: option.splits cell.splits dest: cellAt_append[where xs = xs])

lemma readAvail_append: "readAvail h a = Some ys \<Longrightarrow> readAvail (h @ xs) a = Some ys"
  by (auto simp: readAvail_def split: option.splits cell.splits dest: cellAt_append[where xs = xs])

lemma readShifts_append: "readShifts h a = Some ys \<Longrightarrow> readShifts (h @ xs) a = Some ys"
  by (auto simp: readShifts_def split: option.splits cell.splits dest: cellAt_append[where xs = xs])

lemma readConflicts_at:
  "readConflicts (h @ ConflictArr cs # xs) (length h) = Some cs"
  by (simp add: readConflicts_def cellAt_def)

lemma readConflicts_at2:
  "readConflicts ((h @ ConflictArr cs # xs) @ ys) (length h) = Some cs"
  by (simp add: readConflicts_def cellAt_def nth_append)

lemma unchanged_append: "unchanged h (h @ xs)"
  by (simp add: unchanged_def)

lemma repeatable_base:
  assumes "detectArgs h c s f a t"
    and ret: "detectScheduleConflicts_base tz h c s f a t \<noteq> None"
  shows "repeatable (detectScheduleConflicts_base tz) h c s f a t"
proof -
  from assms obtain sch alls stf avs sts where rd:
    "readSched h c = Some sch" "readEntries h s = Some alls" "readStaff h f = Some stf"
    "readAvail h a = Some avs" "readShifts h t = Some sts"
    by (auto simp: detectArgs_def)
  from ret obtain cs where cs: "conflictsOf_base tz c sch alls stf avs sts = Some cs"
    by (auto simp: detect_base_result[OF rd])
  let ?h1 = "h @ [ConflictArr cs]"
  have d1: "detectScheduleConflicts_base tz h c s f a t = Some (length h, ?h1)"
    by (simp add: detect_base_result[OF rd] cs)
  have d2: "detectScheduleConflicts_base tz ?h1 c s f a t = Some (length ?h1, ?h1 @ [ConflictArr cs])"
    by (simp add: detect_base_result[OF readSched_append[OF rd(1)] readEntries_append[OF rd(2)]
          readStaff_append[OF rd(3)] readAvail_append[OF rd(4)] readShifts_append[OF rd(5)]] cs)
  have u: "unchanged h ?h1" "unchanged ?h1 (?h1 @ [ConflictArr cs])"
    by (rule unchanged_append)+
  have r: "readConflicts ?h1 (length h) = Some cs"
    "readConflicts (?h1 @ [ConflictArr cs]) (length ?h1) = Some cs"
    "readConflicts (?h1 @ [ConflictArr cs]) (length h) = Some cs"
    using readConflicts_at[of h cs "[]"] readConflicts_at[of ?h1 cs "[]"]
      readConflicts_at2[of h cs "[]" "[ConflictArr cs]"]
    by simp_all
  show ?thesis
    by (simp only: repeatable_def d1 d2 option.case prod.case r u) simp
qed

lemma repeatable_enh:
  assumes "detectArgs h c s f a t"
  shows "repeatable (detectScheduleConflicts_enh tz) h c s f a t"
proof -
  from assms obtain sch alls stf sts where rd:
    "readSched h c = Some sch" "readEntries h s = Some alls" "readStaff h f = Some stf"
    "readShifts h t = Some sts"
    by (auto simp: detectArgs_def)
  let ?cs = "conflictsOf_enh sch alls stf"
  from detect_enh_result[OF rd] obtain xs where
    d1: "detectScheduleConflicts_enh tz h c s f a t = Some (length h, h @ ConflictArr ?cs # xs)"
    by blast
  let ?h1 = "h @ ConflictArr ?cs # xs"
  from detect_enh_result[OF readSched_append[OF rd(1)] readEntries_append[OF rd(2)]
          readStaff_append[OF rd(3)] readShifts_append[OF rd(4)]] obtain ys where
    d2: "detectScheduleConflicts_enh tz ?h1 c s f a t = Some (length ?h1, ?h1 @ ConflictArr ?cs # ys)"
    by blast
  have u: "unchanged h ?h1" "unchanged ?h1 (?h1 @ ConflictArr ?cs # ys)"
    by (rule unchanged_append)+
  have r: "readConflicts ?h1 (length h) = Some ?cs"
    "readConflicts (?h1 @ ConflictArr ?cs # ys) (length ?h1) = Some ?cs"
    "readConflicts (?h1 @ ConflictArr ?cs # ys) (length h) = Some ?cs"
    using readConflicts_at[of h ?cs xs] readConflicts_at[of ?h1 ?cs ys]
      readConflicts_at2[of h ?cs xs "ConflictArr ?cs # ys"]
    by simp_all
  show ?thesis
    by (simp only: repeatable_def d1 d2 option.case prod.case r u) simp
qed




subsection \<open>The fairness comparator and the ranked pool\<close>

lemma fairnessCompare_lex:
  "fairnessCompare un ids wk st a b = lexCompare (fairnessKeys un ids wk st) a b"
  by (cases "sid a \<in> set ids"; cases "sid b \<in> set ids"; cases "un = []";
      cases "loadSpecialization (staffLoads st (sid a)) = Some un";
      cases "loadSpecialization (staffLoads st (sid b)) = Some un")
    (simp_all add: fairnessCompare_def fairnessKeys_def Let_def)

lemma lexCompare_anti: "lexCompare ks b a = - lexCompare ks a b"
  by (induction ks) auto

lemma lexCompare_trans:
  "lexCompare ks a b \<le> 0 \<Longrightarrow> lexCompare ks b c \<le> 0 \<Longrightarrow> lexCompare ks a c \<le> 0"
  by (induction ks) (auto split: if_splits)

lemma sorted_insertBy:
  fixes cmp :: "'a \<Rightarrow> 'a \<Rightarrow> int"
  assumes tr: "\<And>x y z. cmp x y \<le> 0 \<Longrightarrow> cmp y z \<le> 0 \<Longrightarrow> cmp x z \<le> 0"
    and tot: "\<And>x y. cmp x y \<le> 0 \<or> cmp y x \<le> 0"
  shows "sorted_wrt (\<lambda>x y. cmp x y \<le> 0) xs \<Longrightarrow> sorted_wrt (\<lambda>x y. cmp x y \<le> 0) (insertBy cmp x xs)"
proof (induction xs)
  case Nil
  then show ?case by simp
next
  case (Cons y ys)
  show ?case
  proof (cases "cmp x y \<le> 0")
    case True
    with Cons.prems tr show ?thesis by auto
  next
    case False
    with tot have "cmp y x \<le> 0" by blast
    with False Cons show ?thesis by (auto simp: set_insertBy)
  qed
qed

lemma sorted_sortBy:
  fixes cmp :: "'a \<Rightarrow> 'a \<Rightarrow> int"
  assumes tr: "\<And>x y z. cmp x y \<le> 0 \<Longrightarrow> cmp y z \<le> 0 \<Longrightarrow> cmp x z \<le> 0"
    and tot: "\<And>x y. cmp x y \<le> 0 \<or> cmp y x \<le> 0"
  shows "sorted_wrt (\<lambda>x y. cmp x y \<le> 0) (sortBy cmp xs)"
proof (induction xs)
  case Nil
  then show ?case by (simp add: sortBy_def)
next
  case (Cons x xs)
  then show ?case
    using sorted_insertBy[where cmp = cmp and xs = "sortBy cmp xs" and x = x, OF tr tot]
    by (simp add: sortBy_def)
qed

lemma sorted_availablePool:
  "sorted_wrt (\<lambda>x y. fairnessCompare (unitTag inp) (unavailableIds (availabilities inp) date)
                        (getWeekKey tz date) st x y \<le> 0)
     (availablePool tz inp date st)"
  unfolding availablePool_def Let_def
proof (rule sorted_sortBy)
  fix x y z
  let ?c = "fairnessCompare (unitTag inp) (unavailableIds (availabilities inp) date) (getWeekKey tz date) st"
  show "?c x y \<le> 0 \<Longrightarrow> ?c y z \<le> 0 \<Longrightarrow> ?c x z \<le> 0"
    unfolding fairnessCompare_lex by (rule lexCompare_trans)
  show "?c x y \<le> 0 \<or> ?c y x \<le> 0"
    unfolding fairnessCompare_lex using lexCompare_anti[of _ y x] by (smt (verit))
qed

lemma tied_compare:
  assumes "tiedKeys un wk st a b" "(sid a \<in> set ids) = (sid b \<in> set ids)"
  shows "fairnessCompare un ids wk st a b = sid a - sid b"
  using assms by (auto simp: fairnessCompare_def tiedKeys_def Let_def)

text \<open>The comparator reads its arguments through their staff ids only.\<close>

lemma fairnessCompare_sid:
  "sid b' = sid b \<Longrightarrow> fairnessCompare un ids wk st a b' = fairnessCompare un ids wk st a b"
  by (simp add: fairnessCompare_def Let_def)

lemma first_occurrence:
  fixes cmp :: "'a \<Rightarrow> 'a \<Rightarrow> int"
  assumes srt: "sorted_wrt (\<lambda>x y. cmp x y \<le> 0) xs"
    and a: "a \<in> set xs"
    and P: "\<And>y. P y \<Longrightarrow> cmp a y < 0"
    and anti: "\<And>x y. cmp y x = - cmp x y"
  shows "\<exists>p1 p2. xs = p1 @ a # p2 \<and> (\<forall>y \<in> set p1. \<not> P y)"
proof -
  from a obtain p1 p2 where sp: "xs = p1 @ a # p2"
    by (auto simp: in_set_conv_decomp)
  have "\<not> P y" if y: "y \<in> set p1" for y
  proof
    assume "P y"
    then have "cmp a y < 0" by (rule P)
    moreover from srt sp y have "cmp y a \<le> 0"
      by (auto simp: sorted_wrt_append)
    ultimately show False using anti[of a y] by linarith
  qed
  with sp show ?thesis by blast
qed

lemma prefix_reaches:
  assumes "visited @ rest = p1 @ a # p2" "\<not> set visited \<subseteq> set p1"
  shows "\<exists>v2. visited = p1 @ a # v2"
proof -
  from assms(1) obtain us where
    "(visited = p1 @ us \<and> us @ rest = a # p2) \<or> (visited @ us = p1 \<and> rest = us @ a # p2)"
    by (auto simp: append_eq_append_conv2)
  then show ?thesis
  proof
    assume h: "visited = p1 @ us \<and> us @ rest = a # p2"
    show ?thesis
    proof (cases us)
      case Nil
      with h assms(2) show ?thesis by simp
    next
      case (Cons u us')
      with h show ?thesis by auto
    qed
  next
    assume "visited @ us = p1 \<and> rest = us @ a # p2"
    then have "set visited \<subseteq> set p1" by auto
    with assms(2) show ?thesis by simp
  qed
qed

lemma takeWhile_pass:
  "(\<And>x. x \<in> set xs \<Longrightarrow> Q x) \<Longrightarrow> Q y \<Longrightarrow> y \<in> set (takeWhile Q (xs @ y # ys))"
  by (induction xs) auto

lemma lowerIdFirst_holds:
  assumes sp: "dupCheck sp" "restCheck sp = NoRestRule" "loopShift sp = dayShiftId k"
    and inv: "dayLoopInv (existingSchedules inp) date (conflicts st)"
    and tied: "tiedInPool tz inp date st a b"
  shows "lowerIdFirst tz inp k sp date st a b"
proof -
  let ?ids = "unavailableIds (availabilities inp) date"
  let ?cmp = "fairnessCompare (unitTag inp) ?ids (getWeekKey tz date) st"
  let ?pool = "availablePool tz inp date st"
  let ?ex = "\<lambda>sm. hasExisting (existingSchedules inp) (sid sm) date"
  let ?en = "\<lambda>sm. entryOf (unitTag inp) date sm (toRef (loopShift sp)) (dutyId k)"
  from tied have ab: "a \<in> set ?pool" "b \<in> set ?pool"
    and tk: "tiedKeys (unitTag inp) (getWeekKey tz date) st a b" and lt: "sid a < sid b"
    by (auto simp: tiedInPool_def)
  have av: "(sid a \<in> set ?ids) = (sid b \<in> set ?ids)"
    using ab availablePool_ids by blast
  have c: "?cmp a b < 0"
    using tied_compare[OF tk av] lt by simp
  have anti: "?cmp y x = - ?cmp x y" for x y
    unfolding fairnessCompare_lex by (rule lexCompare_anti)
  have srt: "sorted_wrt (\<lambda>x y. ?cmp x y \<le> 0) ?pool"
    by (rule sorted_availablePool)
  have sidP: "?cmp a y < 0" if "sid y = sid b" for y
    using fairnessCompare_sid[OF that] c by simp
  from first_occurrence[OF srt ab(1), of "\<lambda>y. sid y = sid b"] sidP anti
  obtain p1 p2 where pool: "?pool = p1 @ a # p2" and p1: "\<forall>y \<in> set p1. sid y \<noteq> sid b"
    by blast
  have a_ne_b: "a \<noteq> b" using lt by auto
  have ranked: "a \<in> set (takeWhile (\<lambda>x. x \<noteq> b) ?pool)"
    unfolding pool using p1 a_ne_b by (intro takeWhile_pass) auto
  obtain n rest st' where r: "dayPhase tz inp k sp date ?pool st = (n, rest, st')"
    by (cases "dayPhase tz inp k sp date ?pool st") auto
  then have "shiftLoop tz inp k sp date (dayShiftCount ?pool) ?pool 0 st = (n, rest, st')"
    by (simp add: dayPhase_def)
  from dayLoop_walk[OF sp(1,2) inv this] obtain visited where v:
      "?pool = visited @ rest"
      "schedules st' = schedules st @ map ?en (filter (\<lambda>sm. \<not> ?ex sm) visited)"
    by blast
  let ?new = "drop (length (schedules st)) (schedules st')"
  have new: "map staffId ?new = map sid (filter (\<lambda>sm. \<not> ?ex sm) visited)"
    using v(2) by (simp add: entryOf_def comp_def)
  have third: "sid a \<in> set (takeWhile (\<lambda>i. i \<noteq> sid b) (map staffId ?new))"
    if hb: "hasEntry ?new (sid b) date" and na: "\<not> ?ex a"
  proof -
    from hb have "sid b \<in> set (map staffId ?new)"
      by (force simp: hasEntry_def list_ex_iff)
    then obtain b' where b': "b' \<in> set visited" "sid b' = sid b"
      unfolding new by auto
    with p1 have "\<not> set visited \<subseteq> set p1" by auto
    from prefix_reaches[OF _ this, of rest a p2] v(1) pool
    obtain v2 where vis: "visited = p1 @ a # v2" by auto
    have "map sid (filter (\<lambda>sm. \<not> ?ex sm) visited)
            = map sid (filter (\<lambda>sm. \<not> ?ex sm) p1) @ sid a # map sid (filter (\<lambda>sm. \<not> ?ex sm) v2)"
      using na by (simp add: vis)
    moreover have "sid a \<in> set (takeWhile (\<lambda>i. i \<noteq> sid b)
             (map sid (filter (\<lambda>sm. \<not> ?ex sm) p1) @ sid a # map sid (filter (\<lambda>sm. \<not> ?ex sm) v2)))"
      using p1 lt by (intro takeWhile_pass) auto
    ultimately show ?thesis by (simp add: new)
  qed
  show ?thesis
    unfolding lowerIdFirst_def Let_def r
    using c ranked third by auto
qed

subsection \<open>Claim C1\<close>

text \<open>
  C1 (exclusion invariant). Whenever the availability records hold an entry for staff
  \<open>s\<close> and date \<open>d\<close> with \<^verbatim>\<open>isAvailable = false\<close>, the schedule list returned by a
  generation run holds no entry with staff id \<open>s\<close> and date \<open>d\<close>; this is so for the
  enhanced and for the base generator, in every time zone, whichever step (day, evening,
  night, pre-duty, post-duty) produced the entry.
\<close>

theorem exclusion_invariant:
  assumes "isUnavailable (availabilities inp) s d"
  shows "\<not> hasEntry (fst (generateSchedule_enh tz inp)) s d
         \<and> \<not> hasEntry (fst (generateSchedule_base tz inp)) s d"
proof -
  from assms have un: "s \<in> set (unavailableIds (availabilities inp) d)"
    by (simp add: isUnavailable_ids)
  have "\<not> hasEntry (fst (generateSchedule_enh tz inp)) s d"
  proof
    assume "hasEntry (fst (generateSchedule_enh tz inp)) s d"
    then obtain e where e: "e \<in> set (schedules (runSchedule_enh tz inp))" "staffId e = s" "sdate e = d"
      by (auto simp: hasEntry_def generateSchedule_enh_def list_ex_iff)
    from e(1) have "staffId e \<notin> set (unavailableIds (availabilities inp) (sdate e))"
      unfolding runSchedule_enh_def Let_def seedState_def
      by (auto dest!: schedules_fold_enh)
    with e un show False by simp
  qed
  moreover have "\<not> hasEntry (fst (generateSchedule_base tz inp)) s d"
  proof
    assume "hasEntry (fst (generateSchedule_base tz inp)) s d"
    then obtain e where e: "e \<in> set (schedules (runSchedule_base tz inp))" "staffId e = s" "sdate e = d"
      by (auto simp: hasEntry_def generateSchedule_base_def list_ex_iff)
    from e(1) have "staffId e \<notin> set (unavailableIds (availabilities inp) (sdate e))"
      unfolding runSchedule_base_def Let_def seedState_def
      by (auto dest!: schedules_fold_base)
    with e un show False by simp
  qed
  ultimately show ?thesis by simp
qed

theorem exclusion_invariant_witness:
  "isUnavailable (availabilities threeDays) 2 10
   \<and> \<not> hasEntry (fst (generateSchedule_enh utc threeDays)) 2 10
   \<and> \<not> hasEntry (fst (generateSchedule_base utc threeDays)) 2 10"
proof -
  have h: "isUnavailable (availabilities threeDays) 2 10"
    by (simp add: threeDays_def isUnavailable_def)
  from exclusion_invariant[OF h, of utc] h show ?thesis by simp
qed

subsection \<open>Claim C4\<close>

text \<open>
  C4 (day-shift conflicts). Both generators break the claim where local time enters
  daylight saving. In the zone of New York the loop that fills \<^verbatim>\<open>dates\<close> lists
  2024-03-10 (day 19792) twice on \<open>springInput\<close>, so the body of \<^verbatim>\<open>dates.forEach\<close>
  runs twice for that date. Staff 3 has an entry for 2024-03-10 in
  \<^verbatim>\<open>existingSchedules\<close>. The first pass leaves a weekly-limit warning for staff 3 and
  that date in \<^verbatim>\<open>conflicts\<close>; in the second pass the day loop pushes the
  error-severity \<^verbatim>\<open>existing_assignment\<close> record for staff 3, but
  \<^verbatim>\<open>conflicts.find\<close> returns the older warning, and the loop assigns the day shift
  to staff 3 and counts it towards the target.
\<close>

theorem existing_assignment_assigned:
  "datesOf newYork springInput = [19792, 19792]
   \<and> hasExisting (existingSchedules springInput) 3 19792
   \<and> dayLoopOutcome secondPass_enh
        (dayPhase newYork springInput (consts_enh springInput) (daySpec_enh (consts_enh springInput))
           19792 (availablePool newYork springInput 19792 secondPass_enh) secondPass_enh)
      = (1, [2, 1], [(3, 19792, ShiftId 1, 2)],
         [(EXCEEDS_WEEKLY_HOURS, 3, 19792, Warning), (EXCEEDS_WEEKLY_HOURS, 3, 19792, Warning),
          (EXISTING_ASSIGNMENT, 3, 19792, Error), (EXCEEDS_WEEKLY_HOURS, 3, 19792, Warning)])
   \<and> dayLoopOutcome secondPass_base
        (dayPhase newYork springInput (consts_base springInput) (daySpec_base (consts_base springInput))
           19792 (availablePool newYork springInput 19792 secondPass_base) secondPass_base)
      = (1, [1, 2], [(3, 19792, ShiftId 1, 2)],
         [(EXCEEDS_WEEKLY_HOURS, 3, 19792, Warning), (REST_PERIOD_VIOLATION, 3, 19792, Error),
          (EXISTING_ASSIGNMENT, 3, 19792, Error), (EXCEEDS_WEEKLY_HOURS, 3, 19792, Warning)])
   \<and> map (\<lambda>e. (staffId e, sdate e, shiftTypeId e, dutyTypeId e))
        (fst (generateSchedule_enh newYork springInput))
      = [(1, 19792, ShiftId 1, 2), (2, 19792, ShiftId 2, 2), (3, 19792, ShiftId 1, 2),
         (1, 19792, ShiftId 2, 2), (2, 19792, ShiftId 3, 2)]
   \<and> map (\<lambda>e. (staffId e, sdate e, shiftTypeId e, dutyTypeId e))
        (fst (generateSchedule_base newYork springInput))
      = [(1, 19792, ShiftId 1, 2), (2, 19792, ShiftId 2, 2), (3, 19792, Null, 3),
         (3, 19792, ShiftId 1, 2), (1, 19792, ShiftId 2, 2), (2, 19792, ShiftId 3, 2)]"
  by code_simp
subsection \<open>Claim C7\<close>




subsection \<open>Claim C9\<close>

text \<open>
  C9 (idempotent detection). The base detector breaks the claim by not returning. In
  the zone of New York the next day of 2024-03-10, computed as the forward loop of the
  base detector computes it, is 2024-03-10 again. On the store \<open>springStore\<close> the
  candidate is an entry of staff 2 for 2024-03-09 and staff 2 has a stored entry for
  2024-03-10: the arguments hold what their types say, the forward loop finds the entry
  of 2024-03-10, steps to 2024-03-10 and never ends, so there is no first list to
  compare a second with. The same call returns, and is repeatable, in the zone UTC; the
  enhanced detector, which has no such loop, returns and is repeatable in the zone of
  New York.
\<close>

theorem detect_never_returns:
  "detectArgs springStore 0 2 3 4 5
   \<and> addDays newYork 1 19791 = 19792 \<and> addDays newYork 1 19792 = 19792
   \<and> detectScheduleConflicts_base newYork springStore 0 2 3 4 5 = None
   \<and> repeatable (detectScheduleConflicts_base utc) springStore 0 2 3 4 5
   \<and> repeatable (detectScheduleConflicts_enh newYork) springStore 0 2 3 4 5"
proof -
  have r: "readSched springStore 0 = Some (candidateOf 2 19791)"
    "readEntries springStore 2 = Some [(1, existingAt 2 19792)]"
    "readStaff springStore 3 = Some [staffOf 1, staffOf 2]"
    "readAvail springStore 4 = Some []"
    "readShifts springStore 5 = Some shiftCatalog"
    by (simp_all add: springStore_def readSched_def readEntries_def readStaff_def readAvail_def
          readShifts_def cellAt_def)
  have a: "detectArgs springStore 0 2 3 4 5"
    by (simp add: detectArgs_def r)
  have n1: "addDays newYork 1 19791 = 19792" by code_simp
  have n2: "addDays newYork 1 19792 = 19792" by code_simp
  have w: "worksOn [(1, existingAt 2 19792)] 2 19792"
    by (simp add: worksOn_def existingAt_def)
  have "countForwards newYork [(1, existingAt 2 19792)] 2 19792 n = None" for n
    using countForwards_stall[of newYork "[(1, existingAt 2 19792)]" 2 19792 n] w n2
    by (cases "countForwards newYork [(1, existingAt 2 19792)] 2 19792 n") auto
  then have "conflictsOf_base newYork 0 (candidateOf 2 19791) [(1, existingAt 2 19792)]
               [staffOf 1, staffOf 2] [] shiftCatalog = None"
    by (simp add: conflictsOf_base_def candidateOf_def staffOf_def n1)
  then have b: "detectScheduleConflicts_base newYork springStore 0 2 3 4 5 = None"
    by (simp add: detect_base_result[OF r])
  have "detectScheduleConflicts_base utc springStore 0 2 3 4 5 \<noteq> None"
    by code_simp
  then have u: "repeatable (detectScheduleConflicts_base utc) springStore 0 2 3 4 5"
    by (rule repeatable_base[OF a])
  have e: "repeatable (detectScheduleConflicts_enh newYork) springStore 0 2 3 4 5"
    by (rule repeatable_enh[OF a])
  from a n1 n2 b u e show ?thesis by simp
qed

subsection \<open>Claim C10\<close>

text \<open>
  C10 (the suggester and availability), as amended. The base suggester returns, in every
  time zone, no staff member who has an availability record with
  \<^verbatim>\<open>isAvailable = false\<close> for the requested date. The enhanced suggester, the one the schedule editor calls, does not read the
  availability records: its result is the same for every availability list, so the
  exclusion does not hold for it.
\<close>

theorem suggest_excludes_unavailable:
  "noneUnavailable avs date (suggestAlternativeStaff_base tz staffId' date shiftTypeId' stf es avs un)
   \<and> suggestAlternativeStaff_enh staffId' date shiftTypeId' stf es avs un
       = suggestAlternativeStaff_enh staffId' date shiftTypeId' stf es avs' un"
proof -
  have "\<not> isUnavailable avs (sid s) date"
    if "s \<in> set (suggestAlternativeStaff_base tz staffId' date shiftTypeId' stf es avs un)" for s
    using that
    by (auto simp: suggestAlternativeStaff_base_def Let_def set_sortBy isUnavailable_ids
          split: if_splits)
  then have "noneUnavailable avs date
               (suggestAlternativeStaff_base tz staffId' date shiftTypeId' stf es avs un)"
    by (auto simp: noneUnavailable_def list_ex_iff)
  moreover have "suggestAlternativeStaff_enh staffId' date shiftTypeId' stf es avs un
       = suggestAlternativeStaff_enh staffId' date shiftTypeId' stf es avs' un"
    by (simp add: suggestAlternativeStaff_enh_def)
  ultimately show ?thesis by simp
qed

theorem suggest_excludes_unavailable_witness:
  "noneUnavailable [\<lparr>avStaffId = 2, avDate = 10, isAvailable = False\<rparr>] 10
     (suggestAlternativeStaff_base utc 1 10 (ShiftId 1) [staffOf 1, staffOf 2, staffOf 3] []
        [\<lparr>avStaffId = 2, avDate = 10, isAvailable = False\<rparr>] None)
   \<and> suggestAlternativeStaff_base utc 1 10 (ShiftId 1) [staffOf 1, staffOf 2, staffOf 3] []
        [\<lparr>avStaffId = 2, avDate = 10, isAvailable = False\<rparr>] None = [staffOf 3]"
proof -
  have "suggestAlternativeStaff_base utc 1 10 (ShiftId 1) [staffOf 1, staffOf 2, staffOf 3] []
        [\<lparr>avStaffId = 2, avDate = 10, isAvailable = False\<rparr>] None = [staffOf 3]"
    by code_simp
  with suggest_excludes_unavailable[of "[\<lparr>avStaffId = 2, avDate = 10, isAvailable = False\<rparr>]" 10 utc 1
      "ShiftId 1" "[staffOf 1, staffOf 2, staffOf 3]" "[]" None]
  show ?thesis by simp
qed

text \<open>
  The claim as stated is false for the enhanced suggester: staff 2 is recorded
  unavailable on day 10 and is suggested for day 10.
\<close>

theorem suggest_excludes_unavailable_counterexample:
  "isUnavailable [\<lparr>avStaffId = 2, avDate = 10, isAvailable = False\<rparr>] 2 10
   \<and> suggestAlternativeStaff_enh 1 10 (ShiftId 1) [staffOf 1, staffOf 2, staffOf 3] []
        [\<lparr>avStaffId = 2, avDate = 10, isAvailable = False\<rparr>] None
      = [staffOf 1, staffOf 2, staffOf 3]"
  by code_simp

subsection \<open>Claim C3\<close>

text \<open>
  C3 (at most one entry per staff member and date). The enhanced generator breaks the
  claim on the input \<open>threeDays\<close> (in the zone UTC): staff 1, available on day 11, is skipped by the night
  loop (day shift on day 10), is then given the Pre-Duty entry of day 11 and, since the
  pre-duty step does not mark its key in \<^verbatim>\<open>assignedShifts\<close>, the Post-Duty entry of
  day 11 as well. The base generator, which marks the key in both steps, returns no two
  entries with the same staff id and date on that input.
\<close>

theorem duplicate_entries_enh:
  "map (\<lambda>e. (staffId e, sdate e, shiftTypeId e, dutyTypeId e))
     (filter (\<lambda>e. staffId e = 1 \<and> sdate e = 11) (fst (generateSchedule_enh utc threeDays)))
   = [(1, 11, ShiftId 1, 1), (1, 11, ShiftId 1, 3)]
   \<and> \<not> isUnavailable (availabilities threeDays) 1 11
   \<and> distinct (map (\<lambda>e. (staffId e, sdate e)) (fst (generateSchedule_base utc threeDays)))"
  by code_simp

subsection \<open>Claim C6\<close>

text \<open>
  C6 (unassigned staff rest). The enhanced generator has no step that resets the streak
  or counts a rest day. On the input \<open>restDay\<close> (in the zone UTC) staff 1 works day 10 and is unavailable
  on day 11, gets no entry for day 11, and ends the run with streak 1 and 0 rest days.
  The base generator, whose date body ends with the loop over the unmarked staff, ends
  the same run with streak 0 and 1 rest day.
\<close>

theorem no_rest_update_enh:
  "map (\<lambda>e. (staffId e, sdate e)) (schedules (runSchedule_enh utc restDay)) = [(1, 10)]
   \<and> consecutiveShifts (staffLoads (runSchedule_enh utc restDay) 1) = 1
   \<and> restDays (staffLoads (runSchedule_enh utc restDay) 1) = 0
   \<and> map (\<lambda>e. (staffId e, sdate e)) (schedules (runSchedule_base utc restDay)) = [(1, 10)]
   \<and> consecutiveShifts (staffLoads (runSchedule_base utc restDay) 1) = 0
   \<and> restDays (staffLoads (runSchedule_base utc restDay) 1) = 1"
  by code_simp

subsection \<open>Claim C8\<close>

text \<open>
  C8 (lowest id breaks the tie), as amended. Let \<open>a\<close> and \<open>b\<close> be in the ranked pool of
  a date, tie on every key above the last (total shifts, weekly shifts, duty-pattern
  total, shift-type total, day, evening and night counts, rest days, specialization
  match) and let \<open>a\<close> have the lower id. Then the fairness comparator puts \<open>a\<close> before
  \<open>b\<close> (it returns a negative number), \<open>a\<close> stands before \<open>b\<close> in the ranked pool, and
  the day loop reaches \<open>a\<close> first: if \<open>b\<close> gets a day-shift entry on that date, then
  \<open>a\<close> has an earlier one, unless \<open>a\<close> already has an entry for that date in
  \<^verbatim>\<open>existingSchedules\<close>. This is \<open>lowerIdFirst tz\<close>, in the state in which a run
  reaches the date, for both generators.
\<close>

theorem lower_id_first:
  "(tiedInPool tz inp d (stateBefore_enh tz inp d) a b \<longrightarrow>
      lowerIdFirst tz inp (consts_enh inp) (daySpec_enh (consts_enh inp)) d (stateBefore_enh tz inp d) a b)
   \<and> (tiedInPool tz inp d (stateBefore_base tz inp d) a b \<longrightarrow>
      lowerIdFirst tz inp (consts_base inp) (daySpec_base (consts_base inp)) d (stateBefore_base tz inp d) a b)"
proof -
  have e: "lowerIdFirst tz inp (consts_enh inp) (daySpec_enh (consts_enh inp)) d (stateBefore_enh tz inp d) a b"
    if "tiedInPool tz inp d (stateBefore_enh tz inp d) a b"
    by (rule lowerIdFirst_holds[OF _ _ _ dayLoopInv_stateBefore_enh that])
      (simp_all add: daySpec_enh_def)
  have b: "lowerIdFirst tz inp (consts_base inp) (daySpec_base (consts_base inp)) d (stateBefore_base tz inp d) a b"
    if "tiedInPool tz inp d (stateBefore_base tz inp d) a b"
    by (rule lowerIdFirst_holds[OF _ _ _ dayLoopInv_stateBefore_base that])
      (simp_all add: daySpec_base_def)
  from e b show ?thesis by blast
qed

theorem lower_id_first_witness:
  "tiedInPool utc threeDays 11 (stateBefore_enh utc threeDays 11) (staffOf 2) (staffOf 3)
   \<and> lowerIdFirst utc threeDays (consts_enh threeDays) (daySpec_enh (consts_enh threeDays)) 11
        (stateBefore_enh utc threeDays 11) (staffOf 2) (staffOf 3)
   \<and> tiedInPool utc threeDays 11 (stateBefore_base utc threeDays 11) (staffOf 2) (staffOf 3)
   \<and> lowerIdFirst utc threeDays (consts_base threeDays) (daySpec_base (consts_base threeDays)) 11
        (stateBefore_base utc threeDays 11) (staffOf 2) (staffOf 3)"
proof -
  have e: "tiedInPool utc threeDays 11 (stateBefore_enh utc threeDays 11) (staffOf 2) (staffOf 3)"
    by code_simp
  have b: "tiedInPool utc threeDays 11 (stateBefore_base utc threeDays 11) (staffOf 2) (staffOf 3)"
    by code_simp
  from lower_id_first[of utc threeDays 11 "staffOf 2" "staffOf 3"] e b show ?thesis by blast
qed

text \<open>
  The claim as stated is false: on \<open>tieInput\<close> staff 1 and 2 tie on every key, staff 1
  has the lower id and an existing entry for day 10; the day loop skips staff 1 and the
  first entry of the run, the day shift, goes to staff 2.
\<close>

theorem lower_id_first_counterexample:
  "tiedInPool utc tieInput 10 (stateBefore_enh utc tieInput 10) (staffOf 1) (staffOf 2)
   \<and> map (\<lambda>e. (staffId e, sdate e, shiftTypeId e)) (fst (generateSchedule_enh utc tieInput))
       = [(2, 10, ShiftId 1), (1, 10, ShiftId 2)]
   \<and> tiedInPool utc tieInput 10 (stateBefore_base utc tieInput 10) (staffOf 1) (staffOf 2)
   \<and> map (\<lambda>e. (staffId e, sdate e, shiftTypeId e)) (fst (generateSchedule_base utc tieInput))
       = [(2, 10, ShiftId 1), (1, 10, ShiftId 2)]"
  by code_simp

subsection \<open>Claim C2\<close>

text \<open>
  C2 (no day shift followed by a night shift). Both generators break the claim where
  local time leaves daylight saving. In the zone of New York \<^verbatim>\<open>getPreviousDay\<close> of
  2024-11-04 (day 20031) is 2024-11-02 (day 20029), so the day-to-night test of the
  night loop compares the date of the last shift with the wrong day. On \<open>autumnInput\<close>
  the dates of the run are 2024-11-03 and 2024-11-04; staff 1 is the only one available
  on 2024-11-03 and gets the day shift, and on 2024-11-04 the night loop assigns the
  night shift to staff 1: the returned list holds Day Shift on \<open>d\<close> and Night Shift on
  \<open>d + 1\<close> for the same person. In the zone UTC neither generator returns such a pair on
  that input.
\<close>

theorem day_then_night_newYork:
  "datesOf newYork autumnInput = [20030, 20031]
   \<and> getPreviousDay newYork 20031 = 20029
   \<and> map (\<lambda>e. (staffId e, sdate e, shiftTypeId e))
        (filter (\<lambda>e. staffId e = 1) (fst (generateSchedule_enh newYork autumnInput)))
      = [(1, 20030, ShiftId 1), (1, 20031, ShiftId 3)]
   \<and> map (\<lambda>e. (staffId e, sdate e, shiftTypeId e))
        (filter (\<lambda>e. staffId e = 1) (fst (generateSchedule_base newYork autumnInput)))
      = [(1, 20030, ShiftId 1), (1, 20031, ShiftId 3)]
   \<and> dayThenNight shiftCatalog (fst (generateSchedule_enh newYork autumnInput))
   \<and> dayThenNight shiftCatalog (fst (generateSchedule_base newYork autumnInput))
   \<and> \<not> dayThenNight shiftCatalog (fst (generateSchedule_enh utc autumnInput))
   \<and> \<not> dayThenNight shiftCatalog (fst (generateSchedule_base utc autumnInput))"
  by code_simp
end
